theory Spec2Isabelle
  imports Complex_Main
begin

section \<open>The graph reduction engine of the Steiner tree application (reduce.c)\<close>

text \<open>
  A shallow embedding of \<^verbatim>\<open>applications/STP/src/reduce.c\<close>: the work limits, the
  connectivity cleanups, the removal of parallel edges, the reduction packages with their
  reduction loops, and the dispatcher \<^verbatim>\<open>reduce\<close>.
  \<^verbatim>\<open>SCIP_Real\<close> is modelled by \<open>real\<close>, \<^verbatim>\<open>int\<close> by \<open>int\<close> (no arithmetic
  of the file comes near the 32-bit range on the values it is given), array indices by
  \<open>nat\<close>.
\<close>

subsection \<open>Constants of reduce.c\<close>

definition STP_RED_SDSPBOUND :: int where "STP_RED_SDSPBOUND = 200"
definition STP_RED_SDSPBOUND2 :: int where "STP_RED_SDSPBOUND2 = 1000"
definition STP_RED_BD3BOUND :: int where "STP_RED_BD3BOUND = 500"
definition STP_RED_EXTENSIVE :: bool where "STP_RED_EXTENSIVE = False"
definition STP_RED_MWTERMBOUND :: int where "STP_RED_MWTERMBOUND = 400"
definition STP_RED_MAXNROUNDS :: nat where "STP_RED_MAXNROUNDS = 15"
definition STP_RED_EXFACTOR :: int where "STP_RED_EXFACTOR = 2"
definition STP_RED_EDGELIMIT :: int where "STP_RED_EDGELIMIT = 200000"

subsection \<open>The graph\<close>

text \<open>
  Modelled from the spec: the header \<^verbatim>\<open>grph.h\<close> with the declaration of \<^verbatim>\<open>GRAPH\<close> is
  missing. The record has the fields that reduce.c reads and writes. The problem variant
  is the closed enumeration of the spec, with the constant names that reduce.c uses.
\<close>

datatype stp_type =
    STP_SPG | STP_SAP | STP_PCSPG | STP_RPCSPG | STP_NWSPG | STP_DCSTP | STP_NWPTSPG
  | STP_RSMT | STP_OARSMT | STP_MWCSP | STP_DHCSTP | STP_GSTP | STP_RMWCSP | STP_BRMWCSP

text \<open>
  Modelled from the spec: edges are stored as twinned arcs, arc \<open>e\<close> and its reverse; the
  arcs that are in an adjacency list are kept in \<open>alive\<close>, most recently inserted first.
  The singly-linked list \<^verbatim>\<open>outbeg[k], oeat[.], ..., EAT_LAST\<close> of a node \<open>k\<close> is the
  list of the alive arcs with tail \<open>k\<close>, and \<^verbatim>\<open>inpbeg[k], ieat[.], ..., EAT_LAST\<close> is the
  list of the alive arcs with head \<open>k\<close>.
\<close>

record GRAPH =
  knots :: nat                  \<comment> \<open>number of node slots\<close>
  edges :: nat                  \<comment> \<open>number of arc slots\<close>
  terms :: int                  \<comment> \<open>number of terminals\<close>
  source :: nat
  stp_type :: stp_type
  extended :: bool
  mark :: "nat \<Rightarrow> bool"
  grad :: "nat \<Rightarrow> int"
  term_g :: "nat \<Rightarrow> int"        \<comment> \<open>the array term of the source\<close>
  prize :: "nat \<Rightarrow> real"
  term2edge :: "nat \<Rightarrow> int"
  cost :: "nat \<Rightarrow> real"
  head :: "nat \<Rightarrow> nat"
  tail :: "nat \<Rightarrow> nat"
  alive :: "nat list"

definition out_arcs :: "GRAPH \<Rightarrow> nat \<Rightarrow> nat list" where
  "out_arcs g k = filter (\<lambda>e. tail g e = k) (alive g)"

definition inp_arcs :: "GRAPH \<Rightarrow> nat \<Rightarrow> nat list" where
  "inp_arcs g k = filter (\<lambda>e. head g e = k) (alive g)"

text \<open>Failing return codes; \<^verbatim>\<open>SCIP_OKAY\<close> is the \<open>Inr\<close> of a result.\<close>

datatype error = SCIP_ERROR | SCIP_NOMEMORY

text \<open>
  Modelled from the spec: \<^verbatim>\<open>graph_edge_del\<close> (graph_base.c is missing) deletes an
  edge: both arcs of the pair are unlinked from their adjacency lists, and the degrees of
  the two end nodes drop by one. The list of the ancestors of the edge is not modelled.
\<close>

definition graph_edge_del :: "GRAPH \<Rightarrow> nat \<Rightarrow> GRAPH" where
  "graph_edge_del g e =
    (let e0 = e - e mod 2;
         grad1 = (grad g)(head g e0 := grad g (head g e0) - 1);
         grad2 = grad1(tail g e0 := grad1 (tail g e0) - 1)
     in g\<lparr>grad := grad2, alive := filter (\<lambda>a. a \<noteq> e0 \<and> a \<noteq> e0 + 1) (alive g)\<rparr>)"

subsection \<open>The collaborators of reduce.c\<close>

text \<open>
  The state that a call works on: the \<^verbatim>\<open>SCIP\<close> environment (clock, limits, random
  numbers, scratch memory, the history and the shortest path data of the graph) and the
  graph. Allocation of scratch memory is taken to succeed.
\<close>

record 'e world =
  scip :: 'e
  graph :: GRAPH

text \<open>
  Modelled from the spec: the reduction test library (reduce_alt.c, reduce_bnd.c,
  reduce_simple.c), the prize-collecting helpers (graph_pc.c), the macros of
  \<^verbatim>\<open>grph.h\<close> and the \<^verbatim>\<open>SCIP\<close> interface are missing. They are parameters of the
  model, one field for each function that reduce.c calls. A test consumes the graph and
  returns an elimination count, the graph as it has changed it, and the offset when it is
  given the pointer to it. Of the arguments, the scalars are kept and the scratch buffers
  are dropped, as are \<^verbatim>\<open>edgestate\<close> and \<^verbatim>\<open>solnode\<close>, which \<^verbatim>\<open>reduce\<close> passes as
  \<^verbatim>\<open>NULL\<close>. A counter passed by pointer is an output of the test; the degree tests
  \<^verbatim>\<open>reduce_simple\<close> and \<^verbatim>\<open>reduce_simple_mw\<close> get its old value too, and
  \<^verbatim>\<open>reduce_simple_pc\<close> gets the old value of \<^verbatim>\<open>countall\<close> (\<open>None\<close> for
  \<^verbatim>\<open>NULL\<close>). The functions that reduce.c calls without \<^verbatim>\<open>SCIP_CALL\<close> have no
  failing result.
\<close>

record 'e lib =
  SCIPisStopped :: "'e \<Rightarrow> bool"
  SCIPgetTotalTime :: "'e \<Rightarrow> real"
  SCIPgetRealParam_limits_time :: "'e \<Rightarrow> real"
  SCIPisLE :: "real \<Rightarrow> real \<Rightarrow> bool"
  SCIPisEQ :: "real \<Rightarrow> real \<Rightarrow> bool"
  FARAWAY :: real
  Is_term :: "int \<Rightarrow> bool"
  graph_init_history :: "'e world \<Rightarrow> error + 'e"
  graph_path_init :: "'e world \<Rightarrow> error + 'e"
  graph_path_exit :: "'e world \<Rightarrow> 'e"
  graph_pc_knotIsFixedTerm :: "GRAPH \<Rightarrow> nat \<Rightarrow> bool"
  graph_pc_getTwinTerm :: "GRAPH \<Rightarrow> nat \<Rightarrow> nat"
  graph_pc_deleteTerm :: "GRAPH \<Rightarrow> nat \<Rightarrow> GRAPH"
  graph_pc_2org :: "GRAPH \<Rightarrow> GRAPH"
  graph_pc_2trans :: "GRAPH \<Rightarrow> GRAPH"
  graph_pc_getPosPrizeSum :: "GRAPH \<Rightarrow> real"
  graph_pc_pcmw2rooted :: "real \<Rightarrow> 'e world \<Rightarrow> error + 'e world"
  graph_pc_presolInit :: "'e world \<Rightarrow> error + 'e world"
  graph_pc_presolExit :: "'e world \<Rightarrow> 'e world"
  reduce_simple :: "real \<Rightarrow> int \<Rightarrow> 'e world \<Rightarrow> error + (int \<times> real \<times> 'e world)"
  reduce_simple_pc :: "real \<Rightarrow> int option \<Rightarrow> 'e world \<Rightarrow> error + (int \<times> int \<times> real \<times> 'e world)"
  reduce_simple_mw :: "real \<Rightarrow> int \<Rightarrow> 'e world \<Rightarrow> error + (int \<times> real \<times> 'e world)"
  reduce_simple_hc :: "real \<Rightarrow> 'e world \<Rightarrow> error + (int \<times> real \<times> 'e world)"
  reduce_simple_sap :: "real \<Rightarrow> 'e world \<Rightarrow> error + (int \<times> real \<times> 'e world)"
  reduce_contractZeroEdges :: "bool \<Rightarrow> 'e world \<Rightarrow> error + 'e world"
  reduce_deleteConflictEdges :: "'e world \<Rightarrow> error + 'e world"
  reduce_nvAdv :: "real \<Rightarrow> 'e world \<Rightarrow> error + (int \<times> real \<times> 'e world)"
  reduce_sl :: "real \<Rightarrow> 'e world \<Rightarrow> error + (int \<times> real \<times> 'e world)"
  reduce_ledge :: "'e world \<Rightarrow> error + (int \<times> 'e world)"
  reduce_sd :: "bool \<Rightarrow> 'e world \<Rightarrow> error + (int \<times> 'e world)"
  reduce_sdPc :: "'e world \<Rightarrow> error + (int \<times> 'e world)"
  reduce_sdsp :: "int \<Rightarrow> 'e world \<Rightarrow> error + (int \<times> 'e world)"
  reduce_sdspSap :: "int \<Rightarrow> 'e world \<Rightarrow> error + (int \<times> 'e world)"
  reduce_sdStar :: "int \<Rightarrow> 'e world \<Rightarrow> error + (int \<times> 'e world)"
  reduce_sdWalk_csr :: "int \<Rightarrow> 'e world \<Rightarrow> error + (int \<times> 'e world)"
  reduce_sdWalkExt :: "int \<Rightarrow> 'e world \<Rightarrow> error + (int \<times> 'e world)"
  reduce_bd34 :: "int \<Rightarrow> real \<Rightarrow> 'e world \<Rightarrow> error + (int \<times> real \<times> 'e world)"
  reduce_bound :: "bool \<Rightarrow> real \<Rightarrow> real \<Rightarrow> 'e world \<Rightarrow> error + (int \<times> real \<times> real \<times> 'e world)"
  reduce_boundMw :: "real \<Rightarrow> 'e world \<Rightarrow> error + (int \<times> real \<times> 'e world)"
  reduce_boundHop :: "'e world \<Rightarrow> error + (int \<times> 'e world)"
  reduce_boundHopR :: "'e world \<Rightarrow> error + (int \<times> 'e world)"
  reduce_boundHopRc :: "real \<Rightarrow> bool \<Rightarrow> 'e world \<Rightarrow> error + (int \<times> 'e world)"
  reduce_rpt :: "real \<Rightarrow> 'e world \<Rightarrow> error + (int \<times> real \<times> 'e world)"
  reduce_da :: "real \<Rightarrow> real \<Rightarrow> int \<Rightarrow> bool \<Rightarrow> bool \<Rightarrow> bool \<Rightarrow> 'e world
    \<Rightarrow> error + (int \<times> real \<times> real \<times> 'e world)"
  reduce_daPcMw :: "bool \<Rightarrow> bool \<Rightarrow> bool \<Rightarrow> bool \<Rightarrow> bool \<Rightarrow> real \<Rightarrow> bool \<Rightarrow> 'e world
    \<Rightarrow> error + (int \<times> 'e world)"
  reduce_ans :: "'e world \<Rightarrow> int \<times> 'e world"
  reduce_ansAdv :: "bool \<Rightarrow> 'e world \<Rightarrow> int \<times> 'e world"
  reduce_ansAdv2 :: "'e world \<Rightarrow> int \<times> 'e world"
  reduce_nnp :: "'e world \<Rightarrow> int \<times> 'e world"
  reduce_chain2 :: "int \<Rightarrow> 'e world \<Rightarrow> error + (int \<times> 'e world)"
  reduce_npv :: "int \<Rightarrow> 'e world \<Rightarrow> error + (int \<times> 'e world)"

text \<open>
  The arguments of the tests with more than one scalar:
  \<^item> \<open>reduce_bound L withprize offset ub w\<close> returns the count, the offset, the upper
    bound and the state (\<open>withprize\<close>: the prize array is passed, not \<^verbatim>\<open>NULL\<close>);
  \<^item> \<open>reduce_da L ub offset prevrounds userec extended nodereplacing w\<close> returns the
    count, the upper bound, the offset and the state;
  \<^item> \<open>reduce_daPcMw L solbasedda varyroot markroots userec fastmode prizesum
    nodereplacing w\<close>;
  \<^item> \<open>reduce_boundHopRc L objval fix w\<close>; \<open>reduce_bd34 L limit offset w\<close>.
\<close>

subsection \<open>Results\<close>

text \<open>
  A call that returns gives \<open>Inl\<close> of its failing return code or \<open>Inr\<close> of its outputs.
  A loop without a bound on its rounds takes fuel, and \<open>None\<close> says that the fuel did
  not suffice. \<open>callE\<close> and \<open>call\<close> are the macro \<^verbatim>\<open>SCIP_CALL\<close>: a failing code is
  returned at once.
\<close>

definition callE :: "error + 'a \<Rightarrow> ('a \<Rightarrow> error + 'b) \<Rightarrow> error + 'b" where
  "callE r f = (case r of Inl e \<Rightarrow> Inl e | Inr x \<Rightarrow> f x)"

definition call :: "error + 'a \<Rightarrow> ('a \<Rightarrow> (error + 'b) option) \<Rightarrow> (error + 'b) option" where
  "call r f = (case r of Inl e \<Rightarrow> Some (Inl e) | Inr x \<Rightarrow> f x)"

definition bnd :: "(error + 'a) option \<Rightarrow> ('a \<Rightarrow> (error + 'b) option) \<Rightarrow> (error + 'b) option" where
  "bnd m f = (case m of None \<Rightarrow> None | Some r \<Rightarrow> call r f)"

definition ret :: "'a \<Rightarrow> (error + 'a) option" where
  "ret x = Some (Inr x)"

subsection \<open>Work limits\<close>

datatype PC_REDTYPE = pc_sdc | pc_sdw1 | pc_sdw2 | pc_bd3

text \<open>
  \<^verbatim>\<open>getWorkLimits_pc\<close>. The macro \<^verbatim>\<open>MAX\<close> compares in \<^verbatim>\<open>double\<close>; the cast
  \<^verbatim>\<open>(int)\<close> of a non-negative value is the floor.
\<close>

definition getWorkLimits_pc :: "GRAPH \<Rightarrow> int \<Rightarrow> PC_REDTYPE \<Rightarrow> int" where
  "getWorkLimits_pc g rounds redtype =
    (let nedges = int (edges g);
         limit = (case redtype of
             pc_sdc \<Rightarrow> if rounds > 0 then STP_RED_SDSPBOUND2 else STP_RED_SDSPBOUND
           | pc_sdw1 \<Rightarrow> if rounds > 0 then STP_RED_SDSPBOUND2 else STP_RED_SDSPBOUND
           | pc_sdw2 \<Rightarrow> if rounds > 0 then STP_RED_SDSPBOUND2 else 0
           | pc_bd3 \<Rightarrow> if rounds > 0 then STP_RED_SDSPBOUND2 else STP_RED_SDSPBOUND div 2)
     in if nedges \<ge> STP_RED_EDGELIMIT \<and> rounds = 0
        then \<lfloor>max (real_of_int limit) (real_of_int limit * sqrt (real_of_int nedges) / 5000)\<rfloor>
        else \<lfloor>max (real_of_int limit) (real_of_int limit * sqrt (real_of_int nedges) / 150)\<rfloor>)"

subsection \<open>Depth-first search\<close>

text \<open>
  The loop over the outgoing arcs of the node popped from the stack, as in
  \<^verbatim>\<open>level0RpcRmwInfeas\<close>: a head that is not marked is marked and pushed, unless
  \<open>skip\<close> holds for it (the \<^verbatim>\<open>continue\<close> of the source). The top of the stack is the
  head of the list.
\<close>

fun dfs_arcs :: "(nat \<Rightarrow> bool) \<Rightarrow> (nat \<Rightarrow> nat) \<Rightarrow> nat list \<Rightarrow> (nat \<Rightarrow> bool) \<Rightarrow> nat list
    \<Rightarrow> (nat \<Rightarrow> bool) \<times> nat list" where
  "dfs_arcs skip hdf [] gmark stack = (gmark, stack)"
| "dfs_arcs skip hdf (a # as) gmark stack =
    (if \<not> gmark (hdf a)
     then (if skip (hdf a) then dfs_arcs skip hdf as gmark stack
           else dfs_arcs skip hdf as (gmark(hdf a := True)) (hdf a # stack))
     else dfs_arcs skip hdf as gmark stack)"

lemma dfs_arcs_mono: "dfs_arcs skip hdf as gm st = (gm', st') \<Longrightarrow> gm v \<Longrightarrow> gm' v"
  by (induction as arbitrary: gm st) (auto split: if_splits)

lemma dfs_arcs_unchanged:
  "dfs_arcs skip hdf as gm st = (gm', st') \<Longrightarrow> (\<forall>v \<in> hdf ` set as. gm' v \<longrightarrow> gm v)
    \<Longrightarrow> gm' = gm \<and> st' = st"
proof (induction as arbitrary: gm st)
  case Nil then show ?case by simp
next
  case (Cons a as)
  show ?case
  proof (cases "\<not> gm (hdf a) \<and> \<not> skip (hdf a)")
    case True
    with Cons.prems(1) have r: "dfs_arcs skip hdf as (gm(hdf a := True)) (hdf a # st) = (gm', st')"
      by simp
    have "gm' (hdf a)" using dfs_arcs_mono[OF r, of "hdf a"] by simp
    with Cons.prems(2) True show ?thesis by simp
  next
    case False
    with Cons.prems(1) have r: "dfs_arcs skip hdf as gm st = (gm', st')" by (auto split: if_splits)
    show ?thesis using Cons.IH[OF r] Cons.prems(2) by simp
  qed
qed

definition unmarked :: "GRAPH \<Rightarrow> (nat \<Rightarrow> bool) \<Rightarrow> nat set" where
  "unmarked g gmark = {v \<in> head g ` set (alive g). \<not> gmark v}"

text \<open>
  The \<^verbatim>\<open>while( stacksize != 0 )\<close> loop. It ends because every round either marks a head
  of an alive arc that was not marked, or only pops the stack.
\<close>

function dfs_loop :: "GRAPH \<Rightarrow> (nat \<Rightarrow> nat \<Rightarrow> bool) \<Rightarrow> (nat \<Rightarrow> bool) \<Rightarrow> nat list \<Rightarrow> (nat \<Rightarrow> bool)" where
  "dfs_loop g skip gmark [] = gmark"
| "dfs_loop g skip gmark (node # stack) =
    (case dfs_arcs (skip node) (head g) (out_arcs g node) gmark stack of
       (gmark', stack') \<Rightarrow> dfs_loop g skip gmark' stack')"
  by pat_completeness auto
termination
proof (relation "inv_image (less_than <*lex*> less_than)
    (\<lambda>(g, skip, gmark, stack). (card (unmarked g gmark), length stack))", goal_cases)
  case 1 show ?case by (intro wf_inv_image wf_lex_prod wf_less_than)
next
  case (2 g skip gmark node stack gm' st')
  then have r: "dfs_arcs (skip node) (head g) (out_arcs g node) gmark stack = (gm', st')" by simp
  have fin: "finite (unmarked g gmark)" by (simp add: unmarked_def)
  have sub: "unmarked g gm' \<subseteq> unmarked g gmark"
    using dfs_arcs_mono[OF r] by (auto simp: unmarked_def)
  show ?case
  proof (cases "\<forall>v \<in> head g ` set (out_arcs g node). gm' v \<longrightarrow> gmark v")
    case True
    from dfs_arcs_unchanged[OF r True] show ?thesis by simp
  next
    case False
    then obtain v where v: "v \<in> head g ` set (out_arcs g node)" "gm' v" "\<not> gmark v" by blast
    then have "v \<in> unmarked g gmark" "v \<notin> unmarked g gm'"
      by (auto simp: unmarked_def out_arcs_def)
    with sub have "unmarked g gm' \<subset> unmarked g gmark" by blast
    then have "card (unmarked g gm') < card (unmarked g gmark)"
      using fin by (rule psubset_card_mono[rotated])
    then show ?thesis by simp
  qed
qed

text \<open>
  Modelled from the spec: \<^verbatim>\<open>graph_trail_arr\<close> (graph_base.c is missing) is the search
  from the start node that marks in \<^verbatim>\<open>g->mark\<close> every node it reaches.
\<close>

definition graph_trail_arr :: "GRAPH \<Rightarrow> nat \<Rightarrow> GRAPH" where
  "graph_trail_arr g i = g\<lparr>mark := dfs_loop g (\<lambda>_ _. False) ((mark g)(i := True)) [i]\<rparr>"

subsection \<open>Connectivity cleanup\<close>

text \<open>\<^verbatim>\<open>while( g->inpbeg[k] != EAT_LAST ) graph_edge_del(scip, g, g->inpbeg[k], TRUE);\<close>\<close>

function del_inp :: "GRAPH \<Rightarrow> nat \<Rightarrow> GRAPH" where
  "del_inp g k = (case inp_arcs g k of [] \<Rightarrow> g | e # _ \<Rightarrow> del_inp (graph_edge_del g e) k)"
  by pat_completeness auto
termination
proof (relation "measure (\<lambda>(g, k). length (alive g))", goal_cases)
  case 1 show ?case by simp
next
  case (2 g k e es)
  then have "e \<in> set (inp_arcs g k)" by simp
  then have e: "e \<in> set (alive g)" by (simp add: inp_arcs_def)
  have "e = e - e mod 2 \<or> e = e - e mod 2 + 1" by presburger
  then have "\<not> (e \<noteq> e - e mod 2 \<and> e \<noteq> e - e mod 2 + 1)" by blast
  with e have "length (filter (\<lambda>a. a \<noteq> e - e mod 2 \<and> a \<noteq> e - e mod 2 + 1) (alive g))
      < length (alive g)"
    by (intro length_filter_less[of e]) auto
  then show ?case by (simp add: graph_edge_del_def Let_def)
qed

text \<open>
  The loop \<^verbatim>\<open>for( int k = nnodes - 1; k >= 0 ; k-- )\<close> of \<^verbatim>\<open>level0\<close>; the second
  argument is \<open>k + 1\<close>.
\<close>

fun level0_loop :: "GRAPH \<Rightarrow> nat \<Rightarrow> GRAPH" where
  "level0_loop g 0 = g"
| "level0_loop g (Suc k) =
    level0_loop (if \<not> mark g k \<and> grad g k > 0 then del_inp g k else g) k"

text \<open>\<^verbatim>\<open>level0\<close>: remove unconnected vertices, overwrites \<^verbatim>\<open>g->mark\<close>.\<close>

definition level0 :: "GRAPH \<Rightarrow> GRAPH" where
  "level0 g =
    (let nnodes = knots g;
         g1 = g\<lparr>mark := (\<lambda>k. if k < nnodes then False else mark g k)\<rparr>;
         g2 = graph_trail_arr g1 (source g1)
     in level0_loop g2 nnodes)"

text \<open>
  \<^verbatim>\<open>level0RpcRmwInfeas\<close>: remove unconnected vertices, including pseudo terminals, and
  check for feasibility. The search from the root (\<open>rpc_gmark\<close>, the local array
  \<^verbatim>\<open>gmark\<close>) does not mark a terminal that is not fixed over an arc from the root. The first loop over the nodes stops at the first
  unmarked fixed terminal; it removes an unmarked terminal that is not fixed, and adds the
  prize of its twin to the offset.
\<close>

fun rpc_term_loop :: "'e lib \<Rightarrow> (nat \<Rightarrow> bool) \<Rightarrow> nat list \<Rightarrow> GRAPH \<Rightarrow> real \<Rightarrow> GRAPH \<times> real \<times> bool" where
  "rpc_term_loop L gmark [] g offset = (g, offset, False)"
| "rpc_term_loop L gmark (k # ks) g offset =
    (if \<not> gmark k \<and> Is_term L (term_g g k)
     then (if graph_pc_knotIsFixedTerm L g k then (g, offset, True)
           else (let pterm = graph_pc_getTwinTerm L g k;
                     offset' = offset + prize g pterm
                 in rpc_term_loop L gmark ks (graph_pc_deleteTerm L g k) offset'))
     else rpc_term_loop L gmark ks g offset)"

fun rpc_del_loop :: "(nat \<Rightarrow> bool) \<Rightarrow> nat list \<Rightarrow> GRAPH \<Rightarrow> GRAPH" where
  "rpc_del_loop gmark [] g = g"
| "rpc_del_loop gmark (k # ks) g =
    rpc_del_loop gmark ks
      (if \<not> gmark k \<and> grad g k > 0
       then (let g' = del_inp g k in g'\<lparr>mark := (mark g')(k := False)\<rparr>)
       else g)"

definition rpc_gmark :: "'e lib \<Rightarrow> GRAPH \<Rightarrow> nat \<Rightarrow> bool" where
  "rpc_gmark L g =
     dfs_loop g
       (\<lambda>node h. node = source g \<and> Is_term L (term_g g h) \<and> \<not> graph_pc_knotIsFixedTerm L g h)
       ((\<lambda>_. False)(source g := True)) [source g]"

definition level0RpcRmwInfeas :: "'e lib \<Rightarrow> GRAPH \<Rightarrow> real \<Rightarrow> error + (GRAPH \<times> real \<times> bool)" where
  "level0RpcRmwInfeas L g offsetp =
    (let nnodes = knots g;
         gmark = rpc_gmark L g
     in case rpc_term_loop L gmark [0..<nnodes] g offsetp of
          (g', offset', infeas) \<Rightarrow>
            if infeas then Inr (g', offset', True)
            else Inr (rpc_del_loop gmark [0..<nnodes] g', offset', False))"

text \<open>\<^verbatim>\<open>level0RpcRmw\<close>: the same, and infeasibility is the return code \<^verbatim>\<open>SCIP_ERROR\<close>.\<close>

definition level0RpcRmw :: "'e lib \<Rightarrow> GRAPH \<Rightarrow> real \<Rightarrow> error + (GRAPH \<times> real)" where
  "level0RpcRmw L g offsetp =
    callE (level0RpcRmwInfeas L g offsetp) (\<lambda>(g', offset', infeas).
      if infeas then Inl SCIP_ERROR else Inr (g', offset'))"

subsection \<open>Parallel edges\<close>





subsection \<open>Iterated tests\<close>

text \<open>
  \<^verbatim>\<open>nvreduce_sl\<close>: iterate the NV and the SL test while more than \<open>minelims\<close>
  contractions are being performed. The first argument bounds the rounds of the
  \<^verbatim>\<open>do ... while\<close> loop.
\<close>

primrec nvreduce_sl_loop :: "nat \<Rightarrow> 'e lib \<Rightarrow> int \<Rightarrow> int \<Rightarrow> real \<Rightarrow> 'e world
    \<Rightarrow> (error + int \<times> real \<times> 'e world) option" where
  "nvreduce_sl_loop 0 L minelims totalelims fixed w = None"
| "nvreduce_sl_loop (Suc n) L minelims totalelims fixed w =
    call (reduce_nvAdv L fixed w) (\<lambda>(nvelims, fixed, w).
    call (reduce_sl L fixed w) (\<lambda>(slelims, fixed, w).
    let elims = 0 + nvelims + slelims in
    call (if elims > 0
          then (if stp_type (graph w) = STP_PCSPG \<or> stp_type (graph w) = STP_RPCSPG
                then callE (reduce_simple_pc L fixed None w)
                       (\<lambda>(degelims, countall, fixed, w). Inr (degelims, fixed, w))
                else reduce_simple L fixed 0 w)
          else Inr (0, fixed, w)) (\<lambda>(degelims, fixed, w).
    let elims = elims + degelims;
        totalelims = totalelims + elims
    in if elims > minelims then nvreduce_sl_loop n L minelims totalelims fixed w
       else ret (totalelims, fixed, w))))"

definition nvreduce_sl :: "nat \<Rightarrow> 'e lib \<Rightarrow> real \<Rightarrow> int \<Rightarrow> 'e world
    \<Rightarrow> (error + int \<times> real \<times> 'e world) option" where
  "nvreduce_sl n L fixed minelims w = nvreduce_sl_loop n L minelims 0 fixed w"

text \<open>
  The wrappers \<^verbatim>\<open>execPc_*\<close>: run the test, and clear the flag \<^verbatim>\<open>*rerun\<close> of the test
  when it has eliminated no more than the reduction bound. They return the count, the
  flag and what the test returns.
\<close>

definition execPc_SD :: "'e lib \<Rightarrow> int \<Rightarrow> bool \<Rightarrow> 'e world \<Rightarrow> error + (int \<times> bool \<times> 'e world)" where
  "execPc_SD L redbound rerun w =
    callE (reduce_sdPc L w) (\<lambda>(nelims, w).
      Inr (nelims, (if nelims \<le> redbound then False else rerun), w))"

definition execPc_SDSP :: "'e lib \<Rightarrow> int \<Rightarrow> int \<Rightarrow> bool \<Rightarrow> 'e world \<Rightarrow> error + (int \<times> bool \<times> 'e world)" where
  "execPc_SDSP L limit redbound rerun w =
    callE (reduce_sdsp L limit w) (\<lambda>(nelims, w).
      Inr (nelims, (if nelims \<le> redbound then False else rerun), w))"

definition execPc_BDk :: "'e lib \<Rightarrow> int \<Rightarrow> real \<Rightarrow> int \<Rightarrow> bool \<Rightarrow> 'e world
    \<Rightarrow> error + (int \<times> bool \<times> real \<times> 'e world)" where
  "execPc_BDk L limit offset redbound rerun w =
    callE (reduce_bd34 L limit offset w) (\<lambda>(nelims, offset, w).
      Inr (nelims, (if nelims \<le> redbound then False else rerun), offset, w))"

definition execPc_NVSL :: "nat \<Rightarrow> 'e lib \<Rightarrow> real \<Rightarrow> int \<Rightarrow> bool \<Rightarrow> 'e world
    \<Rightarrow> (error + int \<times> bool \<times> real \<times> 'e world) option" where
  "execPc_NVSL n L fixed redbound rerun w =
    bnd (nvreduce_sl n L fixed redbound w) (\<lambda>(nelims, fixed, w).
      ret (nelims, (if nelims \<le> redbound div 2 then False else rerun), fixed, w))"

definition execPc_BND :: "'e lib \<Rightarrow> real \<Rightarrow> int \<Rightarrow> bool \<Rightarrow> 'e world
    \<Rightarrow> error + (int \<times> bool \<times> real \<times> 'e world)" where
  "execPc_BND L offset redbound rerun w =
    (let ub = -1 in
     callE (reduce_bound L True offset ub w) (\<lambda>(nelims, offset, ub, w).
       Inr (nelims, (if nelims \<le> redbound then False else rerun), offset, w)))"

subsection \<open>The reduction loop for the MWCSP\<close>

text \<open>
  The local variables of \<^verbatim>\<open>redLoopMw\<close>: the flags of the tests (with the parameters
  \<^verbatim>\<open>advanced\<close>, \<^verbatim>\<open>bred\<close> and \<^verbatim>\<open>userec\<close>, which the loop overwrites), the
  elimination counts of a round, the offset behind the pointer \<^verbatim>\<open>fixed\<close>, and the state
  that the tests work on.
\<close>

record 'e mw_state =
  da :: bool
  ans :: bool
  nnp :: bool
  npv :: bool
  rerun :: bool
  ansad :: bool
  ansad2 :: bool
  chain2 :: bool
  advanced :: bool
  bred :: bool
  userec :: bool
  daelims :: int
  anselims :: int
  nnpelims :: int
  degelims :: int
  npvelims :: int
  bredelims :: int
  ansadelims :: int
  ansad2elims :: int
  chain2elims :: int
  fixed :: real
  wd :: "'e world"

text \<open>
  A round of the \<^verbatim>\<open>for\<close> loop is split in two: the tests, in their fixed order, and the
  decision on another round with the restart. The tests return \<open>True\<close> first when the
  round has left the loop by \<^verbatim>\<open>break\<close>.
\<close>

definition redLoopMw_tests :: "'e lib \<Rightarrow> real \<Rightarrow> real \<Rightarrow> int \<Rightarrow> nat \<Rightarrow> 'e mw_state
    \<Rightarrow> error + (bool \<times> 'e mw_state)" where
  "redLoopMw_tests L timelimit prizesum redbound rounds s =
    (let extensive = STP_RED_EXTENSIVE;
         s = s\<lparr>daelims := 0, anselims := 0, nnpelims := 0, degelims := 0, npvelims := 0,
               bredelims := 0, ansadelims := 0, ansad2elims := 0, chain2elims := 0\<rparr>
     in
     if SCIPgetTotalTime L (scip (wd s)) > timelimit then Inr (True, s) else
     callE (if ans s \<or> extensive
            then (case reduce_ans L (wd s) of (n, w') \<Rightarrow>
                    Inr (s\<lparr>anselims := n, wd := w',
                           ans := (if n \<le> redbound then False else ans s)\<rparr>))
            else Inr s) (\<lambda>s.
     callE (if ansad s \<or> extensive
            then (case reduce_ansAdv L False (wd s) of (n, w') \<Rightarrow>
                    Inr (s\<lparr>ansadelims := n, wd := w',
                           ansad := (if n \<le> redbound then False else ansad s)\<rparr>))
            else Inr s) (\<lambda>s.
     callE (if ans s \<or> ansad s \<or> nnp s \<or> npv s \<or> extensive
            then callE (reduce_simple_mw L (fixed s) (degelims s) (wd s)) (\<lambda>(d, f, w').
                   Inr (s\<lparr>degelims := d, fixed := f, wd := w'\<rparr>))
            else Inr s) (\<lambda>s.
     callE (if da s \<or> (advanced s \<and> extensive)
            then callE (reduce_daPcMw L True False False (userec s) (rounds = 0) prizesum True (wd s))
                   (\<lambda>(n, w').
                      if n \<le> 2 * redbound then Inr (s\<lparr>daelims := n, wd := w', da := False\<rparr>)
                      else callE (reduce_simple_mw L (fixed s) (degelims s) w') (\<lambda>(d, f, w').
                             Inr (s\<lparr>daelims := n, degelims := d, fixed := f, wd := w'\<rparr>)))
            else Inr s) (\<lambda>s.
     callE (if nnp s
            then (case reduce_nnp L (wd s) of (n, w') \<Rightarrow>
                    Inr (s\<lparr>nnpelims := n, wd := w',
                           nnp := (if n \<le> redbound then False else nnp s)\<rparr>))
            else Inr s) (\<lambda>s.
     callE (if nnp s \<or> extensive
            then callE (reduce_chain2 L 500 (wd s)) (\<lambda>(n, w').
                   Inr (s\<lparr>chain2elims := n, wd := w',
                          chain2 := (if n \<le> redbound then False else chain2 s)\<rparr>))
            else Inr s) (\<lambda>s.
     if (nnp s \<or> extensive) \<and> SCIPgetTotalTime L (scip (wd s)) > timelimit
     then Inr (True, s) else
     callE (if npv s \<or> extensive
            then callE (reduce_npv L 400 (wd s)) (\<lambda>(n, w').
                   Inr (s\<lparr>npvelims := n, wd := w',
                          npv := (if n \<le> redbound then False else npv s)\<rparr>))
            else Inr s) (\<lambda>s.
     callE (if chain2 s \<or> extensive
            then callE (reduce_chain2 L 300 (wd s)) (\<lambda>(n, w').
                   Inr (s\<lparr>chain2elims := n, wd := w',
                          chain2 := (if n \<le> redbound then False else chain2 s)\<rparr>))
            else Inr s) (\<lambda>s.
     callE (reduce_simple_mw L (fixed s) (degelims s) (wd s)) (\<lambda>(d, f, w').
     let s = s\<lparr>degelims := d, fixed := f, wd := w'\<rparr> in
     callE (if ansad2 s \<or> extensive
            then (case reduce_ansAdv2 L (wd s) of (n, w') \<Rightarrow>
                    if n \<le> redbound then Inr (s\<lparr>ansad2elims := n, wd := w', ansad2 := False\<rparr>)
                    else callE (reduce_simple_mw L (fixed s) n w') (\<lambda>(n, f, w').
                           Inr (s\<lparr>ansad2elims := n, fixed := f, wd := w'\<rparr>)))
            else Inr s) (\<lambda>s.
     callE (if bred s
            then callE (reduce_boundMw L (fixed s) (wd s)) (\<lambda>(n, f, w').
                   Inr (s\<lparr>bredelims := n, fixed := f, wd := w',
                          bred := (if n \<le> redbound then False else bred s)\<rparr>))
            else Inr s) (\<lambda>s.
     Inr (False, s)))))))))))))"

definition redLoopMw_restart :: "'e lib \<Rightarrow> real \<Rightarrow> bool \<Rightarrow> int \<Rightarrow> 'e mw_state \<Rightarrow> error + 'e mw_state" where
  "redLoopMw_restart L prizesum tryrmw redbound s =
    (let extensive = STP_RED_EXTENSIVE;
         s = (if anselims s + nnpelims s + chain2elims s + bredelims s + npvelims s + ansadelims s
                   + ansad2elims s + daelims s \<le> redbound
              then s\<lparr>rerun := False\<rparr> else s)
     in if \<not> rerun s \<and> advanced s \<and> terms (graph (wd s)) > 2
        then (let cnsadvelims = (0::int) in
          callE (reduce_simple_mw L (fixed s) (degelims s) (wd s)) (\<lambda>(d, f, w').
          let s = s\<lparr>degelims := d, fixed := f, wd := w'\<rparr> in
          callE (reduce_daPcMw L True (terms (graph (wd s)) > STP_RED_MWTERMBOUND) tryrmw (userec s)
                   False prizesum True (wd s)) (\<lambda>(n, w').
          let s = s\<lparr>daelims := n, wd := w', userec := False\<rparr> in
          if cnsadvelims + daelims s \<ge> redbound \<or> (extensive \<and> cnsadvelims + daelims s > 0)
          then (let s = s\<lparr>ans := True, nnp := True, npv := True, ansad := True, ansad2 := True,
                           chain2 := True, rerun := True, advanced := False\<rparr>
                in callE (reduce_simple_mw L (fixed s) (degelims s) (wd s)) (\<lambda>(d, f, w').
                     let s = s\<lparr>degelims := d, fixed := f, wd := w'\<rparr> in
                     Inr (if extensive then s\<lparr>advanced := True\<rparr> else s)))
          else Inr s)))
        else Inr s)"

definition redLoopMw_round :: "'e lib \<Rightarrow> real \<Rightarrow> real \<Rightarrow> bool \<Rightarrow> int \<Rightarrow> nat \<Rightarrow> 'e mw_state
    \<Rightarrow> error + (bool \<times> 'e mw_state)" where
  "redLoopMw_round L timelimit prizesum tryrmw redbound rounds s =
    callE (redLoopMw_tests L timelimit prizesum redbound rounds s) (\<lambda>(brk, s).
      if brk then Inr (True, s)
      else callE (redLoopMw_restart L prizesum tryrmw redbound s) (\<lambda>s. Inr (False, s)))"

text \<open>
  The loop \<^verbatim>\<open>for( rounds = 0; rounds < STP_RED_MAXNROUNDS && !SCIPisStopped(scip) && rerun;
  rounds++ )\<close>. The first argument is fuel: the number of rounds that the loop may start.
\<close>

primrec redLoopMw_for :: "nat \<Rightarrow> 'e lib \<Rightarrow> real \<Rightarrow> real \<Rightarrow> bool \<Rightarrow> int \<Rightarrow> nat \<Rightarrow> 'e mw_state
    \<Rightarrow> (error + 'e mw_state) option" where
  "redLoopMw_for 0 L timelimit prizesum tryrmw redbound rounds s =
    (if rounds < STP_RED_MAXNROUNDS \<and> \<not> SCIPisStopped L (scip (wd s)) \<and> rerun s then None
     else ret s)"
| "redLoopMw_for (Suc n) L timelimit prizesum tryrmw redbound rounds s =
    (if rounds < STP_RED_MAXNROUNDS \<and> \<not> SCIPisStopped L (scip (wd s)) \<and> rerun s
     then call (redLoopMw_round L timelimit prizesum tryrmw redbound rounds s) (\<lambda>(brk, s).
            if brk then ret s
            else redLoopMw_for n L timelimit prizesum tryrmw redbound (rounds + 1) s)
     else ret s)"

text \<open>\<^verbatim>\<open>redLoopMw\<close>, the MWCS loop. The counts of a round start as 0 here; the source sets
  them at the start of each round.\<close>

definition redLoopMw :: "nat \<Rightarrow> 'e lib \<Rightarrow> 'e world \<Rightarrow> real \<Rightarrow> bool \<Rightarrow> bool \<Rightarrow> bool \<Rightarrow> int \<Rightarrow> bool
    \<Rightarrow> (error + real \<times> 'e world) option" where
  "redLoopMw n L w fixed' advanced' bred' tryrmw redbound userec' =
    (let tryrmw = (tryrmw \<and> userec');
         timelimit = SCIPgetRealParam_limits_time L (scip w);
         s = \<lparr>da = advanced', ans = True, nnp = True, npv = True, rerun = True, ansad = True,
              ansad2 = True, chain2 = True, advanced = advanced', bred = bred', userec = userec',
              daelims = 0, anselims = 0, nnpelims = 0, degelims = 0, npvelims = 0, bredelims = 0,
              ansadelims = 0, ansad2elims = 0, chain2elims = 0, fixed = fixed',
              wd = w\<lparr>graph := graph_pc_2org L (graph w)\<rparr>\<rparr>
     in call (reduce_simple_mw L (fixed s) (degelims s) (wd s)) (\<lambda>(d, f, w').
        let s = s\<lparr>degelims := d, fixed := f, wd := w'\<rparr>;
            prizesum = graph_pc_getPosPrizeSum L (graph (wd s))
        in bnd (redLoopMw_for n L timelimit prizesum tryrmw redbound 0 s) (\<lambda>s.
        call (reduce_simple_mw L (fixed s) (degelims s) (wd s)) (\<lambda>(d, f, w').
        let w' = w'\<lparr>graph := graph_pc_2trans L (graph w')\<rparr>;
            w' = w'\<lparr>graph := level0 (graph w')\<rparr>
        in if tryrmw \<and> terms (graph w') > 2
           then call (graph_pc_pcmw2rooted L prizesum w') (\<lambda>w'. ret (f, w'))
           else ret (f, w')))))"

subsection \<open>The reduction loop for the (R)PCSTP\<close>

text \<open>
  The local variables of \<^verbatim>\<open>redLoopPc\<close>: the flags, the running total of eliminations,
  the counts of a round, the round counter, the local offset \<^verbatim>\<open>fix\<close> (here \<open>fix'\<close>),
  and the state that the tests work on. \<open>nconv\<close> counts the calls of
  \<^verbatim>\<open>graph_pc_pcmw2rooted\<close>; it is not a variable of the source.
\<close>

record 'e pc_state =
  rpc :: bool
  da :: bool
  sd :: bool
  sdc :: bool
  sdw :: bool
  sdstar :: bool
  bd3 :: bool
  nvsl :: bool
  rerun :: bool
  bred :: bool
  advancedrun :: bool
  ntotalelims :: int
  nelims :: int
  danelims :: int
  sdnelims :: int
  sdcnelims :: int
  bd3nelims :: int
  nvslnelims :: int
  sdwnelims :: int
  sdstarnelims :: int
  brednelims :: int
  degnelims :: int
  rounds :: nat
  nconv :: nat
  fix' :: real
  wd :: "'e world"

text \<open>
  A round of the main reduction loop is split in three: the tests, the decision on
  another round with the advanced run, and the final degree test with the conversion to
  the rooted problem. The first argument of the tests is the fuel of \<^verbatim>\<open>nvreduce_sl\<close>;
  they return \<open>True\<close> first when the round has left the loop by \<^verbatim>\<open>break\<close>.
\<close>

definition redLoopPc_tests :: "nat \<Rightarrow> 'e lib \<Rightarrow> real \<Rightarrow> real \<Rightarrow> bool \<Rightarrow> bool \<Rightarrow> bool \<Rightarrow> int
    \<Rightarrow> 'e pc_state \<Rightarrow> (error + bool \<times> 'e pc_state) option" where
  "redLoopPc_tests m L timelimit prizesum dualascent userec' nodereplacing reductbound s =
    (let extensive = STP_RED_EXTENSIVE;
         s = s\<lparr>danelims := 0, sdnelims := 0, sdcnelims := 0, bd3nelims := 0, nvslnelims := 0,
               sdwnelims := 0, sdstarnelims := 0, brednelims := 0, degnelims := 0\<rparr>
     in
     if SCIPgetTotalTime L (scip (wd s)) > timelimit then ret (True, s) else
     call (if sd s \<or> extensive
           then callE (execPc_SD L reductbound (sd s) (wd s)) (\<lambda>(n, sd', w').
                  Inr (s\<lparr>sdnelims := n, sd := sd', wd := w'\<rparr>))
           else Inr s) (\<lambda>s.
     call (if sdstar s \<or> extensive
           then callE (reduce_sdStar L (getWorkLimits_pc (graph (wd s)) (int (rounds s)) pc_sdw1) (wd s))
                  (\<lambda>(n, w').
                     Inr (s\<lparr>sdstarnelims := n, wd := w',
                            sdstar := (if n \<le> reductbound then False else sdstar s)\<rparr>))
           else Inr s) (\<lambda>s.
     call (if sdw s \<or> extensive
           then (let sdwnelims2 = (0::int); sdwnelims3 = (0::int) in
                 callE (reduce_sdWalk_csr L (getWorkLimits_pc (graph (wd s)) (int (rounds s)) pc_sdw1)
                          (wd s)) (\<lambda>(n, w').
                 callE (reduce_sdWalkExt L (getWorkLimits_pc (graph w') (int (rounds s)) pc_sdw2) w')
                   (\<lambda>(sdwnelims2, w').
                 let n = n + (sdwnelims2 + sdwnelims3) in
                 Inr (s\<lparr>sdwnelims := n, wd := w',
                        sdw := (if n \<le> reductbound then False else sdw s)\<rparr>))))
           else Inr s) (\<lambda>s.
     call (if sdc s \<or> extensive
           then callE (execPc_SDSP L (getWorkLimits_pc (graph (wd s)) (int (rounds s)) pc_sdc)
                         reductbound (sdc s) (wd s)) (\<lambda>(n, sdc', w').
                  Inr (s\<lparr>sdcnelims := n, sdc := sdc', wd := w'\<rparr>))
           else Inr s) (\<lambda>s.
     if SCIPgetTotalTime L (scip (wd s)) > timelimit then ret (True, s) else
     call (reduce_simple_pc L (fix' s) (Some (degnelims s)) (wd s)) (\<lambda>(n, d, f, w').
     let s = s\<lparr>nelims := n, degnelims := d, fix' := f, wd := w'\<rparr> in
     call (if bd3 s \<and> dualascent
           then callE (execPc_BDk L (getWorkLimits_pc (graph (wd s)) (int (rounds s)) pc_bd3) (fix' s)
                         reductbound (bd3 s) (wd s)) (\<lambda>(n, bd3', f, w').
                  Inr (s\<lparr>bd3nelims := n, bd3 := bd3', fix' := f, wd := w'\<rparr>))
           else Inr s) (\<lambda>s.
     bnd (if nvsl s \<or> extensive
          then bnd (execPc_NVSL m L (fix' s) reductbound (nvsl s) (wd s)) (\<lambda>(n, nvsl', f, w').
                 ret (s\<lparr>nvslnelims := n, nvsl := nvsl', fix' := f, wd := w'\<rparr>))
          else ret s) (\<lambda>s.
     call (if bred s
           then callE (execPc_BND L (fix' s) reductbound (bred s) (wd s)) (\<lambda>(n, bred', f, w').
                  Inr (s\<lparr>brednelims := n, bred := bred', fix' := f, wd := w'\<rparr>))
           else Inr s) (\<lambda>s.
     if SCIPgetTotalTime L (scip (wd s)) > timelimit then ret (True, s) else
     call (if da s \<or> (dualascent \<and> extensive)
           then (let ub = -1 in
                 callE (reduce_simple_pc L (fix' s) (Some (degnelims s)) (wd s)) (\<lambda>(n, d, f, w').
                 let s = s\<lparr>nelims := n, degnelims := d, fix' := f, wd := w'\<rparr> in
                 callE (if rpc s
                        then callE (reduce_da L ub (fix' s) 0 False False nodereplacing (wd s))
                               (\<lambda>(n, ub, f, w'). Inr (s\<lparr>danelims := n, fix' := f, wd := w'\<rparr>))
                        else callE (reduce_daPcMw L True False False userec' (rounds s = 0) prizesum
                                      nodereplacing (wd s))
                               (\<lambda>(n, w'). Inr (s\<lparr>danelims := n, wd := w'\<rparr>))) (\<lambda>s.
                 Inr (s\<lparr>da := (if danelims s \<le> reductbound then False else da s)\<rparr>))))
           else Inr s) (\<lambda>s.
     call (reduce_simple_pc L (fix' s) (Some (degnelims s)) (wd s)) (\<lambda>(n, d, f, w').
     ret (False, s\<lparr>nelims := n, degnelims := d, fix' := f, wd := w'\<rparr>))))))))))))"

definition redLoopPc_restart :: "'e lib \<Rightarrow> real \<Rightarrow> bool \<Rightarrow> bool \<Rightarrow> bool \<Rightarrow> int \<Rightarrow> 'e pc_state
    \<Rightarrow> error + 'e pc_state" where
  "redLoopPc_restart L prizesum dualascent userec' nodereplacing reductbound s =
    (let sumelims = degnelims s + sdnelims s + sdcnelims s + bd3nelims s + danelims s + brednelims s
                      + nvslnelims s + sdwnelims s + sdstarnelims s;
         s = s\<lparr>ntotalelims := ntotalelims s + sumelims\<rparr>;
         s = (if sumelims \<le> reductbound then s\<lparr>rerun := False\<rparr> else s)
     in if \<not> rerun s \<and> advancedrun s \<and> terms (graph (wd s)) > 2
        then (let s = s\<lparr>danelims := 0, degnelims := 0, advancedrun := False\<rparr> in
          callE (if rpc s
                 then (let ub = -1 in
                       callE (reduce_da L ub (fix' s) 0 False False nodereplacing (wd s))
                         (\<lambda>(n, ub, f, w'). Inr (s\<lparr>danelims := n, fix' := f, wd := w'\<rparr>)))
                 else callE (reduce_daPcMw L True True True userec' False prizesum nodereplacing (wd s))
                        (\<lambda>(n, w'). Inr (s\<lparr>danelims := n, wd := w'\<rparr>))) (\<lambda>s.
          callE (reduce_simple_pc L (fix' s) (Some (degnelims s)) (wd s)) (\<lambda>(n, d, f, w').
          let s = s\<lparr>nelims := n, degnelims := d, fix' := f, wd := w'\<rparr>;
              s = s\<lparr>ntotalelims := ntotalelims s + (danelims s + degnelims s)\<rparr>
          in Inr (if ntotalelims s > reductbound
                  then s\<lparr>rerun := True, da := dualascent, sd := True, sdc := True, sdw := True,
                         nvsl := True, bd3 := nodereplacing\<rparr>
                  else s))))
        else Inr s)"

definition redLoopPc_convert :: "'e lib \<Rightarrow> real \<Rightarrow> bool \<Rightarrow> bool \<Rightarrow> bool \<Rightarrow> 'e pc_state
    \<Rightarrow> error + 'e pc_state" where
  "redLoopPc_convert L prizesum dualascent tryrpc nodereplacing s =
    callE (if \<not> rerun s \<or> rounds s = STP_RED_MAXNROUNDS - 1
           then callE (reduce_simple_pc L (fix' s) (Some (degnelims s)) (wd s)) (\<lambda>(n, d, f, w').
                  Inr (s\<lparr>nelims := n, degnelims := d, fix' := f, wd := w'\<rparr>))
           else Inr s) (\<lambda>s.
    if (\<not> rerun s \<or> rounds s = STP_RED_MAXNROUNDS - 1) \<and> \<not> rpc s \<and> tryrpc
         \<and> terms (graph (wd s)) > 2
    then (let s = s\<lparr>nconv := nconv s + 1,
                     wd := (wd s)\<lparr>graph := graph_pc_2trans L (graph (wd s))\<rparr>\<rparr> in
          callE (graph_pc_pcmw2rooted L prizesum (wd s)) (\<lambda>w'.
          let s = s\<lparr>wd := w'\<rparr>;
              s = s\<lparr>rpc := (stp_type (graph (wd s)) = STP_RPCSPG)\<rparr> in
          callE (if rpc s
                 then callE (level0RpcRmw L (graph (wd s)) (fix' s)) (\<lambda>(g, f).
                        Inr (s\<lparr>wd := (wd s)\<lparr>graph := g\<rparr>, fix' := f, rerun := True,
                               da := dualascent, sd := True, sdc := True, sdw := True, nvsl := True,
                               bd3 := nodereplacing, advancedrun := dualascent, rounds := 1\<rparr>))
                 else Inr s) (\<lambda>s.
          Inr (s\<lparr>wd := (wd s)\<lparr>graph := graph_pc_2org L (graph (wd s))\<rparr>\<rparr>))))
    else Inr s)"

definition redLoopPc_round :: "nat \<Rightarrow> 'e lib \<Rightarrow> real \<Rightarrow> real \<Rightarrow> bool \<Rightarrow> bool \<Rightarrow> bool \<Rightarrow> bool \<Rightarrow> int
    \<Rightarrow> 'e pc_state \<Rightarrow> (error + bool \<times> 'e pc_state) option" where
  "redLoopPc_round m L timelimit prizesum dualascent tryrpc userec' nodereplacing reductbound s =
    bnd (redLoopPc_tests m L timelimit prizesum dualascent userec' nodereplacing reductbound s)
      (\<lambda>(brk, s).
         if brk then ret (True, s)
         else call (redLoopPc_restart L prizesum dualascent userec' nodereplacing reductbound s) (\<lambda>s.
              call (redLoopPc_convert L prizesum dualascent tryrpc nodereplacing s) (\<lambda>s.
              ret (False, s))))"

text \<open>
  The main reduction loop \<^verbatim>\<open>for( rounds = 0; rounds < STP_RED_MAXNROUNDS &&
  !SCIPisStopped(scip) && rerun; rounds++ )\<close>. The first argument is the number of rounds
  that the loop may start, the second the fuel of \<^verbatim>\<open>nvreduce_sl\<close>.
\<close>

primrec redLoopPc_for :: "nat \<Rightarrow> nat \<Rightarrow> 'e lib \<Rightarrow> real \<Rightarrow> real \<Rightarrow> bool \<Rightarrow> bool \<Rightarrow> bool \<Rightarrow> bool \<Rightarrow> int
    \<Rightarrow> 'e pc_state \<Rightarrow> (error + 'e pc_state) option" where
  "redLoopPc_for 0 m L timelimit prizesum dualascent tryrpc userec' nodereplacing reductbound s =
    (if rounds s < STP_RED_MAXNROUNDS \<and> \<not> SCIPisStopped L (scip (wd s)) \<and> rerun s then None
     else ret s)"
| "redLoopPc_for (Suc n) m L timelimit prizesum dualascent tryrpc userec' nodereplacing reductbound s =
    (if rounds s < STP_RED_MAXNROUNDS \<and> \<not> SCIPisStopped L (scip (wd s)) \<and> rerun s
     then bnd (redLoopPc_round m L timelimit prizesum dualascent tryrpc userec' nodereplacing
                 reductbound s) (\<lambda>(brk, s).
            if brk then ret s
            else redLoopPc_for n m L timelimit prizesum dualascent tryrpc userec' nodereplacing
                   reductbound (s\<lparr>rounds := rounds s + 1\<rparr>))
     else ret s)"

text \<open>\<^verbatim>\<open>redLoopPc\<close>, the (R)PC loop.\<close>

definition redLoopPc :: "nat \<Rightarrow> 'e lib \<Rightarrow> 'e world \<Rightarrow> real \<Rightarrow> bool \<Rightarrow> bool \<Rightarrow> bool \<Rightarrow> int \<Rightarrow> bool \<Rightarrow> bool
    \<Rightarrow> (error + real \<times> 'e world) option" where
  "redLoopPc fuel L w fixed' dualascent bred' tryrpc reductbound userec' nodereplacing =
    (if grad (graph w) (source (graph w)) = 0 then ret (fixed', w) else
     (let s = \<lparr>rpc = (stp_type (graph w) = STP_RPCSPG), da = dualascent, sd = True, sdc = True,
               sdw = True, sdstar = True, bd3 = nodereplacing, nvsl = True, rerun = True,
               bred = bred', advancedrun = dualascent, ntotalelims = 0, nelims = 0, danelims = 0,
               sdnelims = 0, sdcnelims = 0, bd3nelims = 0, nvslnelims = 0, sdwnelims = 0,
               sdstarnelims = 0, brednelims = 0, degnelims = 0, rounds = 0, nconv = 0, fix' = 0,
               wd = w\<lparr>graph := graph_pc_2org L (graph w)\<rparr>\<rparr>
      in call (graph_pc_presolInit L (wd s)) (\<lambda>w'.
         let s = s\<lparr>wd := w'\<rparr> in
         call (reduce_simple_pc L (fix' s) None (wd s)) (\<lambda>(n, d, f, w').
         let s = s\<lparr>ntotalelims := n, fix' := f, wd := w'\<rparr>;
             prizesum = graph_pc_getPosPrizeSum L (graph (wd s));
             timelimit = SCIPgetRealParam_limits_time L (scip (wd s))
         in bnd (redLoopPc_for fuel fuel L timelimit prizesum dualascent tryrpc userec' nodereplacing
                   reductbound s) (\<lambda>s.
            call (if dualascent \<and> tryrpc then reduce_deleteConflictEdges L (wd s) else Inr (wd s))
              (\<lambda>w'.
            let w' = w'\<lparr>graph := graph_pc_2trans L (graph w')\<rparr>;
                w' = graph_pc_presolExit L w'
            in ret (fixed' + fix' s, w')))))))"

subsection \<open>The reduction loop for the STP\<close>

text \<open>
  The local variables of \<^verbatim>\<open>redLoopStp\<close>: the flags, the counts of a round, the counters
  of the inner loop, the upper bound, the local offset \<^verbatim>\<open>fix\<close> (here \<open>fix'\<close>), and the
  state that the tests work on.
\<close>

record 'e stp_state =
  le :: bool
  sd :: bool
  da :: bool
  sdc :: bool
  bd3 :: bool
  bred :: bool
  nvsl :: bool
  rerun :: bool
  danelims :: int
  lenelims :: int
  sdnelims :: int
  sdcnelims :: int
  bd3nelims :: int
  nvslnelims :: int
  brednelims :: int
  degtnelims :: int
  inner_rounds :: nat
  inner_restarts :: nat
  ub :: real
  fix' :: real
  wd :: "'e world"

text \<open>
  A round of the inner reduction loop is split in two: the tests, and the decision on
  another round with the restart. The tests return \<open>True\<close> first when the round has left
  the inner loop by \<^verbatim>\<open>break\<close>; their first argument is the fuel of \<^verbatim>\<open>nvreduce_sl\<close>.
\<close>

definition redLoopStp_tests :: "nat \<Rightarrow> 'e lib \<Rightarrow> real \<Rightarrow> bool \<Rightarrow> int \<Rightarrow> bool \<Rightarrow> 'e stp_state
    \<Rightarrow> (error + bool \<times> 'e stp_state) option" where
  "redLoopStp_tests m L timelimit nodereplacing reductbound userec' s =
    (let extensive = STP_RED_EXTENSIVE;
         s = s\<lparr>danelims := 0, lenelims := 0, sdnelims := 0, sdcnelims := 0, bd3nelims := 0,
               nvslnelims := 0, brednelims := 0, degtnelims := 0\<rparr>
     in
     if SCIPgetTotalTime L (scip (wd s)) > timelimit then ret (True, s) else
     (let run = (le s \<or> extensive) in
     call (if run
           then callE (reduce_ledge L (wd s)) (\<lambda>(n, w').
                  let s = s\<lparr>lenelims := n, wd := w'\<rparr> in
                  if n \<le> reductbound then Inr (s\<lparr>le := False\<rparr>)
                  else callE (reduce_simple L (fix' s) (degtnelims s) (wd s)) (\<lambda>(d, f, w').
                         Inr (s\<lparr>degtnelims := d, fix' := f, wd := w'\<rparr>)))
           else Inr s) (\<lambda>s.
     if run \<and> SCIPgetTotalTime L (scip (wd s)) > timelimit then ret (True, s) else
     (let run = (sd s \<or> extensive) in
     call (if run
           then callE (reduce_sd L nodereplacing (wd s)) (\<lambda>(n, w').
                  Inr (s\<lparr>sdnelims := n, wd := w',
                         sd := (if n \<le> reductbound then False else sd s)\<rparr>))
           else Inr s) (\<lambda>s.
     if run \<and> SCIPgetTotalTime L (scip (wd s)) > timelimit then ret (True, s) else
     (let run = (sdc s \<or> extensive) in
     call (if run
           then callE (reduce_sdsp L (if inner_rounds s > 0 then STP_RED_SDSPBOUND2
                                       else STP_RED_SDSPBOUND) (wd s)) (\<lambda>(n, w').
                  Inr (s\<lparr>sdcnelims := n, wd := w',
                         sdc := (if n \<le> reductbound then False else sdc s)\<rparr>))
           else Inr s) (\<lambda>s.
     if run \<and> SCIPgetTotalTime L (scip (wd s)) > timelimit then ret (True, s) else
     call (if sd s \<or> sdc s
           then callE (reduce_simple L (fix' s) (degtnelims s) (wd s)) (\<lambda>(d, f, w').
                  Inr (s\<lparr>degtnelims := d, fix' := f, wd := w'\<rparr>))
           else Inr s) (\<lambda>s.
     (let run = (bd3 s \<or> extensive) in
     call (if run
           then callE (reduce_bd34 L STP_RED_BD3BOUND (fix' s) (wd s)) (\<lambda>(n, f, w').
                  let s = s\<lparr>bd3nelims := n, fix' := f, wd := w'\<rparr> in
                  if n \<le> reductbound then Inr (s\<lparr>bd3 := False\<rparr>)
                  else callE (reduce_simple L (fix' s) (degtnelims s) (wd s)) (\<lambda>(d, f, w').
                         Inr (s\<lparr>degtnelims := d, fix' := f, wd := w'\<rparr>)))
           else Inr s) (\<lambda>s.
     if run \<and> SCIPgetTotalTime L (scip (wd s)) > timelimit then ret (True, s) else
     (let run = (nvsl s \<or> extensive) in
     bnd (if run
          then bnd (nvreduce_sl m L (fix' s) reductbound (wd s)) (\<lambda>(n, f, w').
                 ret (s\<lparr>nvslnelims := n, fix' := f, wd := w',
                        nvsl := (if n \<le> reductbound then False else nvsl s)\<rparr>))
          else ret s) (\<lambda>s.
     if run \<and> SCIPgetTotalTime L (scip (wd s)) > timelimit then ret (True, s) else
     (let s = s\<lparr>ub := -1\<rparr>; run = da s in
     call (if run
           then callE (reduce_da L (ub s) (fix' s) (int (inner_rounds s)) userec' False True (wd s))
                  (\<lambda>(n, u, f, w').
                  Inr (s\<lparr>danelims := n, ub := u, fix' := f, wd := w',
                         da := (if n \<le> STP_RED_EXFACTOR * reductbound then False else da s)\<rparr>))
           else Inr s) (\<lambda>s.
     if run \<and> SCIPgetTotalTime L (scip (wd s)) > timelimit then ret (True, s) else
     (let run = (bred s \<and> nodereplacing) in
     call (if run
           then callE (reduce_bound L False (fix' s) (ub s) (wd s)) (\<lambda>(n, f, u, w').
                  Inr (s\<lparr>brednelims := n, fix' := f, ub := u,
                         wd := w'\<lparr>graph := level0 (graph w')\<rparr>,
                         bred := (if n \<le> reductbound then False else bred s)\<rparr>))
           else Inr s) (\<lambda>s.
     if run \<and> SCIPgetTotalTime L (scip (wd s)) > timelimit then ret (True, s) else
     (let s = s\<lparr>wd := (wd s)\<lparr>graph := level0 (graph (wd s))\<rparr>\<rparr> in
     call (reduce_simple L (fix' s) (degtnelims s) (wd s)) (\<lambda>(d, f, w').
     ret (False, s\<lparr>degtnelims := d, fix' := f, wd := w'\<rparr>)))))))))))))))))))"

definition redLoopStp_restart :: "bool \<Rightarrow> int \<Rightarrow> bool \<Rightarrow> 'e stp_state \<Rightarrow> 'e stp_state" where
  "redLoopStp_restart nodereplacing reductbound fullreduce s =
    (let extensive = STP_RED_EXTENSIVE;
         sumelims = danelims s + sdnelims s + bd3nelims s + nvslnelims s + lenelims s + brednelims s
                      + sdcnelims s;
         s = (if sumelims \<le> 2 * reductbound
              then (if inner_rounds s > 0 \<and> fullreduce \<and> inner_restarts s = 0
                    then s\<lparr>inner_restarts := inner_restarts s + 1, le := True, sd := True,
                           sdc := True, da := True, bd3 := nodereplacing, nvsl := nodereplacing\<rparr>
                    else s\<lparr>rerun := False\<rparr>)
              else s);
         s = (if extensive \<and> sumelims > 0 then s\<lparr>rerun := True\<rparr> else s)
     in s\<lparr>inner_rounds := inner_rounds s + 1\<rparr>)"

text \<open>
  The inner reduction loop \<^verbatim>\<open>while( rerun && !SCIPisStopped(scip) )\<close>. The first
  argument is the number of rounds that the loop may start, the second the fuel of
  \<^verbatim>\<open>nvreduce_sl\<close>.
\<close>

primrec redLoopStp_inner :: "nat \<Rightarrow> nat \<Rightarrow> 'e lib \<Rightarrow> real \<Rightarrow> bool \<Rightarrow> int \<Rightarrow> bool \<Rightarrow> bool
    \<Rightarrow> 'e stp_state \<Rightarrow> (error + 'e stp_state) option" where
  "redLoopStp_inner 0 m L timelimit nodereplacing reductbound userec' fullreduce s =
    (if rerun s \<and> \<not> SCIPisStopped L (scip (wd s)) then None else ret s)"
| "redLoopStp_inner (Suc n) m L timelimit nodereplacing reductbound userec' fullreduce s =
    (if rerun s \<and> \<not> SCIPisStopped L (scip (wd s))
     then bnd (redLoopStp_tests m L timelimit nodereplacing reductbound userec' s) (\<lambda>(brk, s).
            if brk then ret s
            else redLoopStp_inner n m L timelimit nodereplacing reductbound userec' fullreduce
                   (redLoopStp_restart nodereplacing reductbound fullreduce s))
     else ret s)"

text \<open>
  The extensive reduction loop \<^verbatim>\<open>do ... while( rerun && !SCIPisStopped(scip) )\<close>
  around the inner loop. The first argument is the number of its rounds, the second the
  fuel of the loops inside.
\<close>

primrec redLoopStp_outer :: "nat \<Rightarrow> nat \<Rightarrow> 'e lib \<Rightarrow> real \<Rightarrow> bool \<Rightarrow> int \<Rightarrow> bool \<Rightarrow> bool
    \<Rightarrow> 'e stp_state \<Rightarrow> (error + 'e stp_state) option" where
  "redLoopStp_outer 0 m L timelimit nodereplacing reductbound userec' fullreduce s = None"
| "redLoopStp_outer (Suc n) m L timelimit nodereplacing reductbound userec' fullreduce s =
    bnd (redLoopStp_inner m m L timelimit nodereplacing reductbound userec' fullreduce
           (s\<lparr>inner_rounds := 0, inner_restarts := 0\<rparr>)) (\<lambda>s.
    bnd (if fullreduce \<and> \<not> SCIPisStopped L (scip (wd s))
         then (if SCIPgetTotalTime L (scip (wd s)) > timelimit then ret (True, s)
               else call (reduce_da L (ub s) (fix' s) (int (inner_rounds s)) userec' True True (wd s))
                      (\<lambda>(extendedelims, u, f, w').
                    let s = s\<lparr>ub := u, fix' := f, wd := w'\<rparr> in
                    call (reduce_simple L (fix' s) extendedelims (wd s)) (\<lambda>(extendedelims, f, w').
                    let s = s\<lparr>fix' := f, wd := w'\<rparr> in
                    ret (False,
                         (if extendedelims > STP_RED_EXFACTOR * reductbound
                          then s\<lparr>le := True, sd := True, sdc := True, da := True,
                                 bd3 := nodereplacing, nvsl := nodereplacing, rerun := True\<rparr>
                          else s)))))
         else ret (False, s)) (\<lambda>(brk, s).
    if brk then ret s
    else if rerun s \<and> \<not> SCIPisStopped L (scip (wd s))
         then redLoopStp_outer n m L timelimit nodereplacing reductbound userec' fullreduce s
         else ret s))"

text \<open>\<^verbatim>\<open>redLoopStp\<close>, the STP loop.\<close>

definition redLoopStp :: "nat \<Rightarrow> 'e lib \<Rightarrow> 'e world \<Rightarrow> real \<Rightarrow> real \<Rightarrow> bool \<Rightarrow> bool \<Rightarrow> bool \<Rightarrow> int \<Rightarrow> bool
    \<Rightarrow> bool \<Rightarrow> (error + real \<times> 'e world) option" where
  "redLoopStp n L w fixed' upperbound dualascent boundreduce nodereplacing reductbound userec' fullreduce =
    (let i = (0::int) in
     call (reduce_contractZeroEdges L True w) (\<lambda>w'.
     call (reduce_simple L 0 i w') (\<lambda>(i, f, w').
     let s = \<lparr>le = True, sd = True, da = dualascent, sdc = True, bd3 = nodereplacing,
              bred = boundreduce, nvsl = nodereplacing, rerun = True, danelims = 0, lenelims = 0,
              sdnelims = 0, sdcnelims = 0, bd3nelims = 0, nvslnelims = 0, brednelims = 0,
              degtnelims = 0, inner_rounds = 0, inner_restarts = 0, ub = upperbound, fix' = f,
              wd = w'\<rparr>;
         timelimit = SCIPgetRealParam_limits_time L (scip (wd s))
     in bnd (redLoopStp_outer n n L timelimit nodereplacing reductbound userec' fullreduce s) (\<lambda>s.
        call (if fullreduce then reduce_deleteConflictEdges L (wd s) else Inr (wd s)) (\<lambda>w'.
        ret (fixed' + fix' s, w'))))))"

subsection \<open>The reduction packages\<close>

text \<open>
  \<^verbatim>\<open>SCIPisLE(scip, (double) nterms / (double) nnodes, c)\<close>. For \<open>nnodes = 0\<close> the
  quotient of the source is not a finite number and the comparison fails; division by
  zero of \<open>real\<close> would give 0.
\<close>

definition terms_ratio_le :: "'e lib \<Rightarrow> GRAPH \<Rightarrow> real \<Rightarrow> bool" where
  "terms_ratio_le L g c \<longleftrightarrow> knots g \<noteq> 0 \<and> SCIPisLE L (real_of_int (terms g) / real (knots g)) c"

text \<open>
  The reduction bounds, the minimal number of eliminations for a reduction test to be
  continued: \<^verbatim>\<open>MAX(nedges / 1000, minelims)\<close> in \<^verbatim>\<open>reduceStp\<close>, and
  \<^verbatim>\<open>MAX(nnodes / 1000, minelims)\<close> in the other packages.
\<close>

definition reduceStp_reductbound :: "GRAPH \<Rightarrow> int \<Rightarrow> int" where
  "reduceStp_reductbound g minelims = (let nedges = int (edges g) in max (nedges div 1000) minelims)"

definition reducePc_reductbound :: "GRAPH \<Rightarrow> int \<Rightarrow> int" where
  "reducePc_reductbound g minelims = (let nnodes = int (knots g) in max (nnodes div 1000) minelims)"

definition reduceMw_redbound :: "GRAPH \<Rightarrow> int \<Rightarrow> int" where
  "reduceMw_redbound g minelims = (let nnodes = int (knots g) in max (nnodes div 1000) minelims)"

text \<open>\<^verbatim>\<open>reduceStp\<close>, the basic reduction package for the STP.\<close>

definition reduceStp :: "nat \<Rightarrow> 'e lib \<Rightarrow> 'e world \<Rightarrow> real \<Rightarrow> int \<Rightarrow> bool \<Rightarrow> bool \<Rightarrow> bool
    \<Rightarrow> (error + real \<times> 'e world) option" where
  "reduceStp n L w fixed' minelims dualascent nodereplacing userec' =
    (let bred' = terms_ratio_le L (graph w) 0.03;
         reductbound = reduceStp_reductbound (graph w) minelims
     in redLoopStp n L w fixed' (-1) dualascent bred' nodereplacing reductbound userec'
          (dualascent \<and> userec'))"

text \<open>\<^verbatim>\<open>reducePc\<close>, the basic reduction package for the (R)PCSTP.\<close>

definition reducePc :: "nat \<Rightarrow> 'e lib \<Rightarrow> 'e world \<Rightarrow> real \<Rightarrow> int \<Rightarrow> bool \<Rightarrow> bool \<Rightarrow> bool
    \<Rightarrow> (error + real \<times> 'e world) option" where
  "reducePc n L w fixed' minelims advanced' userec' nodereplacing =
    (let bred' = terms_ratio_le L (graph w) 0.03;
         reductbound = reducePc_reductbound (graph w) minelims
     in redLoopPc n L w fixed' advanced' bred' (userec' \<and> advanced') reductbound userec' nodereplacing)"

text \<open>\<^verbatim>\<open>reduceMw\<close>, the reduction package for the MWCSP.\<close>

definition reduceMw :: "nat \<Rightarrow> 'e lib \<Rightarrow> 'e world \<Rightarrow> real \<Rightarrow> int \<Rightarrow> bool \<Rightarrow> bool
    \<Rightarrow> (error + real \<times> 'e world) option" where
  "reduceMw n L w fixed' minelims advanced' userec' =
    (let redbound = reduceMw_redbound (graph w) minelims;
         bred' = terms_ratio_le L (graph w) 0.1
     in redLoopMw n L w fixed' advanced' bred' advanced' redbound userec')"

text \<open>
  \<^verbatim>\<open>reduceHc\<close>, the basic reduction package for the HCDSTP: the \<^verbatim>\<open>while\<close> loop with
  its four flags, and the package.
\<close>

primrec reduceHc_loop :: "nat \<Rightarrow> 'e lib \<Rightarrow> real \<Rightarrow> int \<Rightarrow> bool \<Rightarrow> bool \<Rightarrow> bool \<Rightarrow> bool \<Rightarrow> real \<Rightarrow> 'e world
    \<Rightarrow> (error + real \<times> 'e world) option" where
  "reduceHc_loop 0 L timelimit redbound bred' hbred rbred rcbred fixed' w =
    (if (bred' \<or> hbred \<or> rbred \<or> rcbred) \<and> \<not> SCIPisStopped L (scip w) then None
     else ret (fixed', w))"
| "reduceHc_loop (Suc n) L timelimit redbound bred' hbred rbred rcbred fixed' w =
    (if (bred' \<or> hbred \<or> rbred \<or> rcbred) \<and> \<not> SCIPisStopped L (scip w)
     then (if SCIPgetTotalTime L (scip w) > timelimit then ret (fixed', w) else
       (let upperbound = -1 in
        call (if rbred
              then callE (reduce_boundHopR L w) (\<lambda>(hcrnelims, w).
                     Inr ((if hcrnelims \<le> redbound then False else rbred), w))
              else Inr (rbred, w)) (\<lambda>(rbred, w).
        call (if rcbred
              then callE (reduce_boundHopRc L (-1) False w) (\<lambda>(hcrcnelims, w).
                     Inr ((if hcrcnelims \<le> redbound then False else rcbred), w))
              else Inr (rcbred, w)) (\<lambda>(rcbred, w).
        call (if bred'
              then callE (reduce_bound L False fixed' upperbound w) (\<lambda>(brednelims, fixed', upperbound, w).
                     Inr ((if brednelims \<le> redbound then False else bred'), fixed', w))
              else Inr (bred', fixed', w)) (\<lambda>(bred', fixed', w).
        if SCIPgetTotalTime L (scip w) > timelimit then ret (fixed', w) else
        call (if hbred
              then callE (reduce_boundHop L w) (\<lambda>(hbrednelims, w).
                     Inr ((if hbrednelims \<le> redbound then False else hbred), w,
                          SCIPgetTotalTime L (scip w) > timelimit))
              else Inr (hbred, w, False)) (\<lambda>(hbred, w, brk).
        if brk then ret (fixed', w)
        else reduceHc_loop n L timelimit redbound bred' hbred rbred rcbred fixed' w))))))
     else ret (fixed', w))"

definition reduceHc :: "nat \<Rightarrow> 'e lib \<Rightarrow> 'e world \<Rightarrow> real \<Rightarrow> int \<Rightarrow> (error + real \<times> 'e world) option" where
  "reduceHc n L w fixed' minelims =
    (let redbound = max (int (knots (graph w)) div 1000) minelims;
         timelimit = SCIPgetRealParam_limits_time L (scip w)
     in call (reduce_simple_hc L fixed' w) (\<lambda>(degnelims, fixed', w).
        reduceHc_loop n L timelimit redbound True True True True fixed' w))"

text \<open>\<^verbatim>\<open>reduceSap\<close>, the basic reduction package for the SAP.\<close>

primrec reduceSap_loop :: "nat \<Rightarrow> 'e lib \<Rightarrow> real \<Rightarrow> int \<Rightarrow> bool \<Rightarrow> bool \<Rightarrow> bool \<Rightarrow> real \<Rightarrow> real \<Rightarrow> 'e world
    \<Rightarrow> (error + real \<times> 'e world) option" where
  "reduceSap_loop 0 L timelimit redbound sd' rpt da' ub' fixed' w =
    (if (sd' \<or> rpt \<or> da') \<and> \<not> SCIPisStopped L (scip w) then None else ret (fixed', w))"
| "reduceSap_loop (Suc n) L timelimit redbound sd' rpt da' ub' fixed' w =
    (if (sd' \<or> rpt \<or> da') \<and> \<not> SCIPisStopped L (scip w)
     then (if SCIPgetTotalTime L (scip w) > timelimit then ret (fixed', w) else
        call (if sd'
              then callE (reduce_sdspSap L 300 w) (\<lambda>(sdnelims, w).
                     Inr ((if sdnelims \<le> redbound then False else sd'), w))
              else Inr (sd', w)) (\<lambda>(sd', w).
        call (if rpt
              then callE (reduce_rpt L fixed' w) (\<lambda>(rptnelims, fixed', w).
                     Inr ((if rptnelims \<le> redbound then False else rpt), fixed', w))
              else Inr (rpt, fixed', w)) (\<lambda>(rpt, fixed', w).
        call (reduce_simple_sap L fixed' w) (\<lambda>(degtnelims, fixed', w).
        call (if da'
              then callE (reduce_da L ub' fixed' 0 False False False w) (\<lambda>(danelims, ub', fixed', w).
                     Inr ((if danelims \<le> 2 * redbound then False else da'), ub', fixed', w))
              else Inr (da', ub', fixed', w)) (\<lambda>(da', ub', fixed', w).
        reduceSap_loop n L timelimit redbound sd' rpt da' ub' fixed' w)))))
     else ret (fixed', w))"

definition reduceSap :: "nat \<Rightarrow> 'e lib \<Rightarrow> 'e world \<Rightarrow> real \<Rightarrow> int \<Rightarrow> (error + real \<times> 'e world) option" where
  "reduceSap n L w fixed' minelims =
    (let ub' = FARAWAY L;
         g = graph w;
         redbound = max (int (knots g) div 1000) minelims;
         timelimit = SCIPgetRealParam_limits_time L (scip w);
         w = w\<lparr>graph := g\<lparr>cost := (\<lambda>e. if e < edges g \<and> SCIPisEQ L (cost g e) 20000 then FARAWAY L
                                         else cost g e)\<rparr>\<rparr>
     in call (reduce_simple_sap L fixed' w) (\<lambda>(degtnelims, fixed', w).
        bnd (reduceSap_loop n L timelimit redbound False True True ub' fixed' w) (\<lambda>(fixed', w).
        call (reduce_simple_sap L fixed' w) (\<lambda>(degtnelims, fixed', w).
        ret (fixed', w)))))"

text \<open>\<^verbatim>\<open>reduceNw\<close>, the reduction package for the node-weighted problem.\<close>

primrec reduceNw_loop :: "nat \<Rightarrow> 'e lib \<Rightarrow> real \<Rightarrow> int \<Rightarrow> bool \<Rightarrow> real \<Rightarrow> real \<Rightarrow> 'e world
    \<Rightarrow> (error + real \<times> 'e world) option" where
  "reduceNw_loop 0 L timelimit redbound da' ub' fixed' w =
    (if da' \<and> \<not> SCIPisStopped L (scip w) then None else ret (fixed', w))"
| "reduceNw_loop (Suc n) L timelimit redbound da' ub' fixed' w =
    (if da' \<and> \<not> SCIPisStopped L (scip w)
     then (if SCIPgetTotalTime L (scip w) > timelimit then ret (fixed', w) else
        call (reduce_da L ub' fixed' 0 False False False w) (\<lambda>(danelims, ub', fixed', w).
        reduceNw_loop n L timelimit redbound (if danelims \<le> 2 * redbound then False else da')
          ub' fixed' w))
     else ret (fixed', w))"

definition reduceNw :: "nat \<Rightarrow> 'e lib \<Rightarrow> 'e world \<Rightarrow> real \<Rightarrow> int \<Rightarrow> (error + real \<times> 'e world) option" where
  "reduceNw n L w fixed' minelims =
    (let ub' = FARAWAY L;
         redbound = max (int (knots (graph w)) div 1000) minelims;
         timelimit = SCIPgetRealParam_limits_time L (scip w)
     in reduceNw_loop n L timelimit redbound True ub' fixed' w)"

subsection \<open>The dispatcher\<close>

text \<open>
  \<^verbatim>\<open>reduce\<close>, reduces the graph: \<open>level\<close> 0 is none, 1 basic, 2 advanced. The result is
  the offset and the state. The first argument is the fuel of the loops. The call of
  \<^verbatim>\<open>deleteMultiedges\<close> for level 2 is compiled out (\<^verbatim>\<open>#if 0\<close>).
\<close>

definition reduce :: "nat \<Rightarrow> 'e lib \<Rightarrow> 'e world \<Rightarrow> int \<Rightarrow> int \<Rightarrow> bool \<Rightarrow> (error + real \<times> 'e world) option" where
  "reduce n L w level minelims userec' =
    (let offset = 0;
         stp_type' = stp_type (graph w)
     in call (graph_init_history L w) (\<lambda>e.
        let w = w\<lparr>scip := e\<rparr> in
        call (graph_path_init L w) (\<lambda>e.
        let w = w\<lparr>scip := e\<rparr>;
            w = w\<lparr>graph := level0 (graph w)\<rparr>
        in if stp_type (graph w) = STP_DCSTP \<or> stp_type (graph w) = STP_RMWCSP
              \<or> stp_type (graph w) = STP_NWPTSPG \<or> stp_type (graph w) = STP_BRMWCSP
           then ret (offset, w\<lparr>scip := graph_path_exit L w\<rparr>)
           else
             bnd (if level = 1
                  then (if stp_type' = STP_PCSPG \<or> stp_type' = STP_RPCSPG
                        then reducePc n L w offset minelims False False True
                        else if stp_type' = STP_MWCSP then reduceMw n L w offset minelims False False
                        else if stp_type' = STP_DHCSTP then reduceHc n L w offset minelims
                        else if stp_type' = STP_SAP then reduceSap n L w offset minelims
                        else if stp_type' = STP_NWSPG then reduceNw n L w offset minelims
                        else reduceStp n L w offset minelims False True False)
                  else if level = 2
                  then (if stp_type' = STP_PCSPG \<or> stp_type' = STP_RPCSPG
                        then reducePc n L w offset minelims True userec' True
                        else if stp_type' = STP_MWCSP then reduceMw n L w offset minelims True userec'
                        else if stp_type' = STP_DHCSTP then reduceHc n L w offset minelims
                        else if stp_type' = STP_SAP then reduceSap n L w offset minelims
                        else if stp_type' = STP_NWSPG then reduceNw n L w offset minelims
                        else reduceStp n L w offset minelims True True userec')
                  else ret (offset, w)) (\<lambda>(offset, w).
             let w = w\<lparr>graph := level0 (graph w)\<rparr>
             in ret (offset, w\<lparr>scip := graph_path_exit L w\<rparr>)))))"

subsection \<open>Well-formed graphs\<close>

text \<open>
  Modelled from the spec: the macro \<^verbatim>\<open>flipedge\<close> of \<^verbatim>\<open>grph.h\<close> gives the reverse of an
  arc, its neighbour in the pair. In a well-formed graph the source and the ends of the
  alive arcs are nodes, and the reverse of an alive arc starts where the arc ends.
\<close>

definition flipedge :: "nat \<Rightarrow> nat" where
  "flipedge e = (if e mod 2 = 1 then e - 1 else e + 1)"

definition graph_wf :: "GRAPH \<Rightarrow> bool" where
  "graph_wf g \<longleftrightarrow> source g < knots g \<and>
     (\<forall>e \<in> set (alive g). head g e < knots g \<and> tail g e < knots g \<and> tail g (flipedge e) = head g e)"

text \<open>
  Auxiliary notions for the proofs: a graph that has only lost arcs and degree, a node
  whose incoming arcs the cleanup has removed, marks that are closed under the alive arcs.
\<close>

definition shrinks :: "GRAPH \<Rightarrow> GRAPH \<Rightarrow> bool" where
  "shrinks g g' \<longleftrightarrow> g'\<lparr>grad := grad g, alive := alive g\<rparr> = g \<and> (\<forall>k. grad g' k \<le> grad g k) \<and>
      (\<exists>P. alive g' = filter P (alive g))"

definition settled :: "GRAPH \<Rightarrow> nat \<Rightarrow> bool" where
  "settled g k \<longleftrightarrow> (\<not> mark g k \<and> grad g k > 0 \<longrightarrow> inp_arcs g k = [])"

definition twin_ok :: "GRAPH \<Rightarrow> bool" where
  "twin_ok g \<longleftrightarrow> (\<forall>a \<in> set (alive g). tail g (flipedge a) = head g a)"

definition closed_marks :: "(nat \<Rightarrow> bool) \<Rightarrow> GRAPH \<Rightarrow> bool" where
  "closed_marks D g \<longleftrightarrow> (\<forall>a \<in> set (alive g). D (tail g a) \<longrightarrow> D (head g a))"

definition dfs_inv :: "GRAPH \<Rightarrow> (nat \<Rightarrow> bool) \<Rightarrow> nat list \<Rightarrow> bool" where
  "dfs_inv g gm st \<longleftrightarrow> (\<forall>v. gm v \<longrightarrow> v \<in> set st \<or> (\<forall>a \<in> set (out_arcs g v). gm (head g a)))"

subsection \<open>Assertions about the loops\<close>

text \<open>
  What a call gives if it succeeds: \<open>postE r Q\<close> and \<open>post m Q\<close> say that \<open>Q\<close> holds of
  the outputs of a call that has not failed (and, for \<open>post\<close>, has not run out of fuel).
\<close>

definition postE :: "(error + 'a) \<Rightarrow> ('a \<Rightarrow> bool) \<Rightarrow> bool" where
  "postE r Q \<longleftrightarrow> (\<forall>x. r = Inr x \<longrightarrow> Q x)"

definition post :: "(error + 'a) option \<Rightarrow> ('a \<Rightarrow> bool) \<Rightarrow> bool" where
  "post m Q \<longleftrightarrow> (\<forall>x. m = Some (Inr x) \<longrightarrow> Q x)"

text \<open>
  The tests of a round and the flags of the loop: the tests may clear the flag of a test,
  and they set none; they leave the flag \<^verbatim>\<open>rerun\<close> and the counters of the loop as they
  are. One relation for each of the three loops.
\<close>

definition stp_frame :: "'e stp_state \<Rightarrow> 'e stp_state \<Rightarrow> bool" where
  "stp_frame s s' \<longleftrightarrow> rerun s' = rerun s \<and> inner_rounds s' = inner_rounds s \<and>
     inner_restarts s' = inner_restarts s \<and>
     (le s' \<longrightarrow> le s) \<and> (sd s' \<longrightarrow> sd s) \<and> (da s' \<longrightarrow> da s) \<and> (sdc s' \<longrightarrow> sdc s) \<and>
     (bd3 s' \<longrightarrow> bd3 s) \<and> (bred s' \<longrightarrow> bred s) \<and> (nvsl s' \<longrightarrow> nvsl s)"

definition pc_frame :: "'e pc_state \<Rightarrow> 'e pc_state \<Rightarrow> bool" where
  "pc_frame s s' \<longleftrightarrow> nconv s' = nconv s \<and> rpc s' = rpc s \<and> rounds s' = rounds s \<and>
     pc_state.rerun s' = pc_state.rerun s \<and> advancedrun s' = advancedrun s \<and>
     (pc_state.da s' \<longrightarrow> pc_state.da s) \<and> (pc_state.sd s' \<longrightarrow> pc_state.sd s) \<and>
     (pc_state.sdc s' \<longrightarrow> pc_state.sdc s) \<and> (sdw s' \<longrightarrow> sdw s) \<and> (sdstar s' \<longrightarrow> sdstar s) \<and>
     (pc_state.bd3 s' \<longrightarrow> pc_state.bd3 s) \<and> (pc_state.nvsl s' \<longrightarrow> pc_state.nvsl s) \<and>
     (pc_state.bred s' \<longrightarrow> pc_state.bred s)"

definition mw_frame :: "'e mw_state \<Rightarrow> 'e mw_state \<Rightarrow> bool" where
  "mw_frame s s' \<longleftrightarrow> mw_state.rerun s' = mw_state.rerun s \<and> advanced s' = advanced s \<and>
     userec s' = userec s \<and>
     (mw_state.da s' \<longrightarrow> mw_state.da s) \<and> (ans s' \<longrightarrow> ans s) \<and> (nnp s' \<longrightarrow> nnp s) \<and>
     (npv s' \<longrightarrow> npv s) \<and> (ansad s' \<longrightarrow> ansad s) \<and> (ansad2 s' \<longrightarrow> ansad2 s) \<and>
     (chain2 s' \<longrightarrow> chain2 s) \<and> (mw_state.bred s' \<longrightarrow> mw_state.bred s)"



subsection \<open>Closed examples\<close>

text \<open>
  An instance of the collaborators in which no test finds anything to eliminate, SCIP is
  never stopped and the time limit is never reached. A terminal is a node with a
  non-negative tag, a fixed terminal one without an edge to a twin.
\<close>

definition lib_idle :: "'e lib" where
  "lib_idle = \<lparr>
     SCIPisStopped = (\<lambda>_. False),
     SCIPgetTotalTime = (\<lambda>_. 0),
     SCIPgetRealParam_limits_time = (\<lambda>_. 3600),
     SCIPisLE = (\<lambda>a b. a \<le> b),
     SCIPisEQ = (\<lambda>a b. a = b),
     FARAWAY = 10000000000,
     Is_term = (\<lambda>a. 0 \<le> a),
     graph_init_history = (\<lambda>w. Inr (scip w)),
     graph_path_init = (\<lambda>w. Inr (scip w)),
     graph_path_exit = (\<lambda>w. scip w),
     graph_pc_knotIsFixedTerm = (\<lambda>g k. 0 \<le> term_g g k \<and> term2edge g k < 0),
     graph_pc_getTwinTerm = (\<lambda>g k. head g (nat (term2edge g k))),
     graph_pc_deleteTerm = (\<lambda>g k. (del_inp g k)\<lparr>term_g := (term_g g)(k := -1)\<rparr>),
     graph_pc_2org = (\<lambda>g. g),
     graph_pc_2trans = (\<lambda>g. g),
     graph_pc_getPosPrizeSum = (\<lambda>g. 0),
     graph_pc_pcmw2rooted = (\<lambda>prizesum w. Inr w),
     graph_pc_presolInit = (\<lambda>w. Inr w),
     graph_pc_presolExit = (\<lambda>w. w),
     reduce_simple = (\<lambda>fixed count w. Inr (count, fixed, w)),
     reduce_simple_pc = (\<lambda>fixed countall w.
        Inr (0, (case countall of None \<Rightarrow> 0 | Some c \<Rightarrow> c), fixed, w)),
     reduce_simple_mw = (\<lambda>fixed count w. Inr (count, fixed, w)),
     reduce_simple_hc = (\<lambda>fixed w. Inr (0, fixed, w)),
     reduce_simple_sap = (\<lambda>fixed w. Inr (0, fixed, w)),
     reduce_contractZeroEdges = (\<lambda>b w. Inr w),
     reduce_deleteConflictEdges = (\<lambda>w. Inr w),
     reduce_nvAdv = (\<lambda>fixed w. Inr (0, fixed, w)),
     reduce_sl = (\<lambda>fixed w. Inr (0, fixed, w)),
     reduce_ledge = (\<lambda>w. Inr (0, w)),
     reduce_sd = (\<lambda>b w. Inr (0, w)),
     reduce_sdPc = (\<lambda>w. Inr (0, w)),
     reduce_sdsp = (\<lambda>limit w. Inr (0, w)),
     reduce_sdspSap = (\<lambda>limit w. Inr (0, w)),
     reduce_sdStar = (\<lambda>limit w. Inr (0, w)),
     reduce_sdWalk_csr = (\<lambda>limit w. Inr (0, w)),
     reduce_sdWalkExt = (\<lambda>limit w. Inr (0, w)),
     reduce_bd34 = (\<lambda>limit offset w. Inr (0, offset, w)),
     reduce_bound = (\<lambda>b offset ub w. Inr (0, offset, ub, w)),
     reduce_boundMw = (\<lambda>fixed w. Inr (0, fixed, w)),
     reduce_boundHop = (\<lambda>w. Inr (0, w)),
     reduce_boundHopR = (\<lambda>w. Inr (0, w)),
     reduce_boundHopRc = (\<lambda>objval b w. Inr (0, w)),
     reduce_rpt = (\<lambda>fixed w. Inr (0, fixed, w)),
     reduce_da = (\<lambda>ub offset prevrounds b1 b2 b3 w. Inr (0, ub, offset, w)),
     reduce_daPcMw = (\<lambda>b1 b2 b3 b4 b5 prizesum b6 w. Inr (0, w)),
     reduce_ans = (\<lambda>w. (0, w)),
     reduce_ansAdv = (\<lambda>b w. (0, w)),
     reduce_ansAdv2 = (\<lambda>w. (0, w)),
     reduce_nnp = (\<lambda>w. (0, w)),
     reduce_chain2 = (\<lambda>limit w. Inr (0, w)),
     reduce_npv = (\<lambda>limit w. Inr (0, w))\<rparr>"

text \<open>
  Four nodes and two edges: the edge of the arcs 0 and 1 joins the source 0 and node 1,
  the edge of the arcs 2 and 3 joins the nodes 2 and 3, out of reach of the source.
\<close>

definition graph_two_comp :: GRAPH where
  "graph_two_comp = \<lparr>knots = 4, edges = 4, terms = 1, source = 0, stp_type = STP_SPG,
     extended = False, mark = (\<lambda>_. False), grad = (\<lambda>k. if k < 4 then 1 else 0),
     term_g = (\<lambda>k. if k = 0 then 0 else -1), prize = (\<lambda>_. 0), term2edge = (\<lambda>_. -1),
     cost = (\<lambda>_. 1),
     head = (\<lambda>e. if e = 0 then 1 else if e = 1 then 0 else if e = 2 then 3 else 2),
     tail = (\<lambda>e. if e = 0 then 0 else if e = 1 then 1 else if e = 2 then 2 else 3),
     alive = [3, 2, 1, 0]\<rparr>"

text \<open>
  Two nodes and two parallel edges between them: the edge of the arcs 0 and 1 costs 5,
  the edge of the arcs 2 and 3 costs 1.
\<close>

definition graph_par2 :: GRAPH where
  "graph_par2 = \<lparr>knots = 2, edges = 4, terms = 2, source = 0, stp_type = STP_SPG,
     extended = False, mark = (\<lambda>_. False), grad = (\<lambda>k. if k < 2 then 2 else 0),
     term_g = (\<lambda>k. if k < 2 then 0 else -1), prize = (\<lambda>_. 0), term2edge = (\<lambda>_. -1),
     cost = (\<lambda>e. if e < 2 then 5 else 1),
     head = (\<lambda>e. if e mod 2 = 0 then 1 else 0),
     tail = (\<lambda>e. if e mod 2 = 0 then 0 else 1),
     alive = [3, 2, 1, 0]\<rparr>"

text \<open>
  Rooted prize-collecting graphs. In the first, node 2 is a fixed terminal out of reach of
  the root 0. In the second, node 2 is a terminal that is not fixed, with the twin 3 of
  prize 7, and the isolated node 4 is a fixed terminal; both are out of reach of the root.
\<close>

definition graph_rpc_a :: GRAPH where
  "graph_rpc_a = \<lparr>knots = 4, edges = 4, terms = 2, source = 0, stp_type = STP_RPCSPG,
     extended = True, mark = (\<lambda>_. False), grad = (\<lambda>k. if k < 4 then 1 else 0),
     term_g = (\<lambda>k. if k = 0 \<or> k = 2 then 0 else -1), prize = (\<lambda>k. if k = 2 then 5 else 0),
     term2edge = (\<lambda>_. -1), cost = (\<lambda>_. 1),
     head = (\<lambda>e. if e = 0 then 1 else if e = 1 then 0 else if e = 2 then 3 else 2),
     tail = (\<lambda>e. if e = 0 then 0 else if e = 1 then 1 else if e = 2 then 2 else 3),
     alive = [3, 2, 1, 0]\<rparr>"


text \<open>
  Three nodes in a path, all of them terminals: a prize-collecting problem with more than
  two terminals.
\<close>

definition graph_path3 :: GRAPH where
  "graph_path3 = \<lparr>knots = 3, edges = 4, terms = 3, source = 0, stp_type = STP_PCSPG,
     extended = False, mark = (\<lambda>_. False), grad = (\<lambda>k. if k = 1 then 2 else if k < 3 then 1 else 0),
     term_g = (\<lambda>k. if k < 3 then 0 else -1), prize = (\<lambda>_. 0), term2edge = (\<lambda>_. -1),
     cost = (\<lambda>_. 1),
     head = (\<lambda>e. if e = 0 then 1 else if e = 1 then 0 else if e = 2 then 2 else 1),
     tail = (\<lambda>e. if e = 0 then 0 else if e = 1 then 1 else if e = 2 then 1 else 2),
     alive = [3, 2, 1, 0]\<rparr>"

text \<open>
  The collaborators of \<open>lib_idle\<close>, with a conversion \<^verbatim>\<open>graph_pc_pcmw2rooted\<close> that
  makes the problem a rooted one.
\<close>

definition lib_root :: "'e lib" where
  "lib_root = lib_idle\<lparr>graph_pc_pcmw2rooted :=
     (\<lambda>prizesum w. Inr (w\<lparr>graph := (graph w)\<lparr>stp_type := STP_RPCSPG\<rparr>\<rparr>))\<rparr>"

text \<open>
  The collaborators of \<open>lib_idle\<close>, with an SD test that eliminates three edges in each
  call as long as there are three left to eliminate; the state of SCIP counts the edges
  that the test can still eliminate.
\<close>

definition lib_sd3 :: "nat lib" where
  "lib_sd3 = lib_idle\<lparr>reduce_sd :=
     (\<lambda>b w. if 3 \<le> scip w then Inr (3, w\<lparr>scip := scip w - 3\<rparr>) else Inr (0, w))\<rparr>"

text \<open>
  States of the three loops. \<open>pc_state0\<close> is the state in which \<^verbatim>\<open>redLoopPc\<close> enters its
  loop for the path with dual ascent and node replacement, \<open>stp_start\<close> the one in which
  \<^verbatim>\<open>redLoopStp\<close> enters its inner loop with node replacement and without dual ascent,
  with 60 edges for the SD test to eliminate. In \<open>stp_state0\<close> and \<open>mw_state0\<close> the first
  test is not active. \<open>sd3_running\<close> holds of the states of \<^verbatim>\<open>redLoopStp\<close> in which the
  SD test is the one that keeps the loop going.
\<close>

definition pc_state0 :: "unit pc_state" where
  "pc_state0 = \<lparr>rpc = False, da = True, sd = True, sdc = True, sdw = True, sdstar = True, bd3 = True,
     nvsl = True, rerun = True, bred = False, advancedrun = True, ntotalelims = 0, nelims = 0,
     danelims = 0, sdnelims = 0, sdcnelims = 0, bd3nelims = 0, nvslnelims = 0, sdwnelims = 0,
     sdstarnelims = 0, brednelims = 0, degnelims = 0, rounds = 0, nconv = 0, fix' = 0,
     wd = \<lparr>scip = (), graph = graph_path3\<rparr>\<rparr>"


definition stp_state0 :: "unit stp_state" where
  "stp_state0 = \<lparr>le = False, sd = True, da = False, sdc = True, bd3 = True, bred = False, nvsl = True,
     rerun = True, danelims = 0, lenelims = 0, sdnelims = 0, sdcnelims = 0, bd3nelims = 0,
     nvslnelims = 0, brednelims = 0, degtnelims = 0, inner_rounds = 0, inner_restarts = 0,
     ub = -1, fix' = 0, wd = \<lparr>scip = (), graph = graph_par2\<rparr>\<rparr>"

definition mw_state0 :: "unit mw_state" where
  "mw_state0 = \<lparr>mw_state.da = False, ans = False, nnp = True, npv = True, rerun = True, ansad = True,
     ansad2 = True, chain2 = True, advanced = False, bred = False, userec = False,
     daelims = 0, anselims = 0, nnpelims = 0, degelims = 0, npvelims = 0, bredelims = 0,
     ansadelims = 0, ansad2elims = 0, chain2elims = 0, fixed = 0,
     wd = \<lparr>scip = (), graph = graph_path3\<rparr>\<rparr>"


section \<open>Properties\<close>

subsection \<open>The connectivity cleanup\<close>

declare del_inp.simps [simp del]

lemma shrinks_refl: "shrinks g g"
  unfolding shrinks_def by (auto intro: exI[of _ "\<lambda>_. True"])

lemma shrinks_fields:
  assumes "shrinks g g'"
  shows "knots g' = knots g" "edges g' = edges g" "source g' = source g" "mark g' = mark g"
    "head g' = head g" "tail g' = tail g" "stp_type g' = stp_type g" "terms g' = terms g"
    "set (alive g') \<subseteq> set (alive g)" "grad g' k \<le> grad g k" "length (alive g') \<le> length (alive g)"
proof -
  from assms have eq: "g'\<lparr>grad := grad g, alive := alive g\<rparr> = g"
    and al: "\<exists>P. alive g' = filter P (alive g)" and gr: "\<forall>k. grad g' k \<le> grad g k"
    unfolding shrinks_def by auto
  show "knots g' = knots g" using arg_cong[OF eq, of knots] by simp
  show "edges g' = edges g" using arg_cong[OF eq, of edges] by simp
  show "source g' = source g" using arg_cong[OF eq, of source] by simp
  show "mark g' = mark g" using arg_cong[OF eq, of mark] by simp
  show "head g' = head g" using arg_cong[OF eq, of head] by simp
  show "tail g' = tail g" using arg_cong[OF eq, of tail] by simp
  show "stp_type g' = stp_type g" using arg_cong[OF eq, of stp_type] by simp
  show "terms g' = terms g" using arg_cong[OF eq, of terms] by simp
  show "set (alive g') \<subseteq> set (alive g)" using al by auto
  show "grad g' k \<le> grad g k" using gr by simp
  show "length (alive g') \<le> length (alive g)" using al by auto
qed

lemma shrinks_trans:
  assumes "shrinks g g'" "shrinks g' g''" shows "shrinks g g''"
proof -
  from assms obtain P P' where P: "alive g' = filter P (alive g)" "alive g'' = filter P' (alive g')"
    unfolding shrinks_def by auto
  have eq1: "g'\<lparr>grad := grad g, alive := alive g\<rparr> = g" and eq2: "g''\<lparr>grad := grad g', alive := alive g'\<rparr> = g'"
    using assms unfolding shrinks_def by auto
  have "g''\<lparr>grad := grad g, alive := alive g\<rparr> = (g''\<lparr>grad := grad g', alive := alive g'\<rparr>)\<lparr>grad := grad g, alive := alive g\<rparr>"
    by simp
  also have "\<dots> = g" by (simp only: eq2 eq1)
  finally have a: "g''\<lparr>grad := grad g, alive := alive g\<rparr> = g" .
  have b: "\<forall>k. grad g'' k \<le> grad g k"
    using assms unfolding shrinks_def by (meson order_trans)
  have c: "alive g'' = filter (\<lambda>x. P x \<and> P' x) (alive g)" using P by simp
  show ?thesis unfolding shrinks_def using a b c by blast
qed

lemma shrinks_edge_del: "shrinks g (graph_edge_del g e)"
  unfolding shrinks_def graph_edge_del_def Let_def
  by auto

lemma shrinks_del_inp: "shrinks g (del_inp g k)"
proof (induction g k rule: del_inp.induct)
  case (1 g k)
  show ?case
  proof (cases "inp_arcs g k")
    case Nil then show ?thesis by (simp add: shrinks_refl del_inp.simps[of g k])
  next
    case (Cons e es)
    with 1 have "shrinks (graph_edge_del g e) (del_inp g k)" by (simp add: del_inp.simps[of g k])
    with shrinks_edge_del show ?thesis by (rule shrinks_trans)
  qed
qed

lemma shrinks_level0_loop: "shrinks g (level0_loop g n)"
proof (induction n arbitrary: g)
  case 0 show ?case by (simp add: shrinks_refl)
next
  case (Suc n)
  have "shrinks g (if \<not> mark g n \<and> grad g n > 0 then del_inp g n else g)"
    by (simp add: shrinks_refl shrinks_del_inp)
  then show ?case using Suc[of "if \<not> mark g n \<and> grad g n > 0 then del_inp g n else g"] by (auto intro: shrinks_trans)
qed

lemma dfs_arcs_marks_in:
  "dfs_arcs skip hdf as gm st = (gm', st') \<Longrightarrow> gm' v \<Longrightarrow> gm v \<or> v \<in> hdf ` set as"
proof (induction as arbitrary: gm st)
  case Nil then show ?case by simp
next
  case (Cons a as)
  show ?case
  proof (cases "\<not> gm (hdf a) \<and> \<not> skip (hdf a)")
    case True
    with Cons.prems(1) have r: "dfs_arcs skip hdf as (gm(hdf a := True)) (hdf a # st) = (gm', st')" by simp
    from Cons.IH[OF r Cons.prems(2)] show ?thesis by (auto split: if_splits)
  next
    case False
    with Cons.prems(1) have r: "dfs_arcs skip hdf as gm st = (gm', st')" by (auto split: if_splits)
    from Cons.IH[OF r Cons.prems(2)] show ?thesis by auto
  qed
qed

lemma dfs_arcs_stack_marked:
  "dfs_arcs skip hdf as gm st = (gm', st') \<Longrightarrow> \<forall>v \<in> set st. gm v \<Longrightarrow> \<forall>v \<in> set st'. gm' v"
proof (induction as arbitrary: gm st)
  case Nil then show ?case by simp
next
  case (Cons a as)
  show ?case
  proof (cases "\<not> gm (hdf a) \<and> \<not> skip (hdf a)")
    case True
    with Cons.prems(1) have r: "dfs_arcs skip hdf as (gm(hdf a := True)) (hdf a # st) = (gm', st')" by simp
    show ?thesis by (rule Cons.IH[OF r]) (use Cons.prems(2) in auto)
  next
    case False
    with Cons.prems(1) have r: "dfs_arcs skip hdf as gm st = (gm', st')" by (auto split: if_splits)
    from Cons.IH[OF r Cons.prems(2)] show ?thesis .
  qed
qed

lemma dfs_arcs_noskip:
  "dfs_arcs (\<lambda>_. False) hdf as gm st = (gm', st') \<Longrightarrow>
     (\<forall>a \<in> set as. gm' (hdf a)) \<and> set st' = set st \<union> {v. gm' v \<and> \<not> gm v}"
proof (induction as arbitrary: gm st)
  case Nil then show ?case by auto
next
  case (Cons a as)
  show ?case
  proof (cases "gm (hdf a)")
    case False
    with Cons.prems have r: "dfs_arcs (\<lambda>_. False) hdf as (gm(hdf a := True)) (hdf a # st) = (gm', st')" by simp
    have m: "gm' (hdf a)" using dfs_arcs_mono[OF r, of "hdf a"] by simp
    from Cons.IH[OF r] m False show ?thesis by auto
  next
    case True
    with Cons.prems have r: "dfs_arcs (\<lambda>_. False) hdf as gm st = (gm', st')" by simp
    have m: "gm' (hdf a)" using dfs_arcs_mono[OF r True] .
    from Cons.IH[OF r] m show ?thesis by auto
  qed
qed

lemma dfs_loop_mono: "gm v \<Longrightarrow> dfs_loop g skip gm st v"
proof (induction g skip gm st rule: dfs_loop.induct)
  case (1 g skip gmark) then show ?case by simp
next
  case (2 g skip gmark node stack)
  obtain gm' st' where r: "dfs_arcs (skip node) (head g) (out_arcs g node) gmark stack = (gm', st')"
    by (cases "dfs_arcs (skip node) (head g) (out_arcs g node) gmark stack")
  have "gm' v" using dfs_arcs_mono[OF r "2.prems"] .
  with "2.IH"[OF r[symmetric]] r show ?case by simp
qed

lemma dfs_loop_marks_in:
  "dfs_loop g skip gm st v \<Longrightarrow> gm v \<or> v \<in> head g ` set (alive g)"
proof (induction g skip gm st rule: dfs_loop.induct)
  case (1 g skip gmark) then show ?case by simp
next
  case (2 g skip gmark node stack)
  obtain gm' st' where r: "dfs_arcs (skip node) (head g) (out_arcs g node) gmark stack = (gm', st')"
    by (cases "dfs_arcs (skip node) (head g) (out_arcs g node) gmark stack")
  from "2.prems" r have "dfs_loop g skip gm' st' v" by simp
  from "2.IH"[OF r[symmetric] this] have "gm' v \<or> v \<in> head g ` set (alive g)" .
  then show ?case using dfs_arcs_marks_in[OF r, of v] by (auto simp: out_arcs_def)
qed

lemma dfs_loop_closed:
  "dfs_inv g gm st \<Longrightarrow> dfs_inv g (dfs_loop g (\<lambda>_ _. False) gm st) []"
proof (induction g "\<lambda>(_::nat) (_::nat). False" gm st rule: dfs_loop.induct)
  case (1 g gmark) then show ?case by simp
next
  case (2 g gmark node stack)
  obtain gm' st' where r: "dfs_arcs (\<lambda>_. False) (head g) (out_arcs g node) gmark stack = (gm', st')"
    by (cases "dfs_arcs (\<lambda>_. False) (head g) (out_arcs g node) gmark stack")
  note ns = dfs_arcs_noskip[OF r] and mono = dfs_arcs_mono[OF r]
  have "dfs_inv g gm' st'"
    unfolding dfs_inv_def
  proof (intro allI impI)
    fix v assume v: "gm' v"
    show "v \<in> set st' \<or> (\<forall>a \<in> set (out_arcs g v). gm' (head g a))"
    proof (cases "gmark v")
      case False with v ns show ?thesis by auto
    next
      case True
      with "2.prems" have "v = node \<or> v \<in> set stack \<or> (\<forall>a \<in> set (out_arcs g v). gmark (head g a))"
        by (auto simp: dfs_inv_def)
      then show ?thesis using ns mono by auto
    qed
  qed
  from "2.hyps"[OF r[symmetric] this] r show ?case by simp
qed

lemma dfs_loop_cong:
  "head g' = head g \<Longrightarrow> \<forall>v. dfs_loop g skip gm st v \<longrightarrow> out_arcs g' v = out_arcs g v
     \<Longrightarrow> \<forall>v \<in> set st. gm v \<Longrightarrow> dfs_loop g' skip gm st = dfs_loop g skip gm st"
proof (induction g skip gm st rule: dfs_loop.induct)
  case (1 g skip gmark) then show ?case by simp
next
  case (2 g skip gmark node stack)
  note hd = "2.prems"(1)
  obtain gm' st' where r: "dfs_arcs (skip node) (head g) (out_arcs g node) gmark stack = (gm', st')"
    by (cases "dfs_arcs (skip node) (head g) (out_arcs g node) gmark stack")
  have "gmark node" using "2.prems"(3) by simp
  then have "dfs_loop g skip gmark (node # stack) node" by (rule dfs_loop_mono)
  with "2.prems"(2) have oa: "out_arcs g' node = out_arcs g node" by blast
  have fin: "dfs_loop g skip gmark (node # stack) = dfs_loop g skip gm' st'" using r by simp
  have st: "\<forall>v \<in> set st'. gm' v"
    using dfs_arcs_stack_marked[OF r] "2.prems"(3) by simp
  have "dfs_loop g' skip gm' st' = dfs_loop g skip gm' st'"
    using "2.IH"[OF r[symmetric] hd] "2.prems"(2) st unfolding fin by blast
  moreover have "dfs_loop g' skip gmark (node # stack) = dfs_loop g' skip gm' st'"
    using r by (simp add: oa hd)
  ultimately show ?case using fin by simp
qed

lemma del_inp_id: "inp_arcs g k = [] \<Longrightarrow> del_inp g k = g"
  by (simp add: del_inp.simps[of g k])

lemma inp_arcs_del_inp: "inp_arcs (del_inp g k) k = []"
proof (induction g k rule: del_inp.induct)
  case (1 g k)
  show ?case
  proof (cases "inp_arcs g k")
    case Nil then show ?thesis by (simp add: del_inp_id)
  next
    case (Cons e es)
    with 1 show ?thesis by (simp add: del_inp.simps[of g k])
  qed
qed

lemma settled_shrinks:
  assumes "settled g k" "shrinks g g'" shows "settled g' k"
proof -
  from assms(2) obtain P where P: "alive g' = filter P (alive g)" unfolding shrinks_def by auto
  have i: "inp_arcs g' k = filter P (inp_arcs g k)"
    unfolding inp_arcs_def P shrinks_fields(5)[OF assms(2)] by (simp add: conj_commute)
  show ?thesis
    using assms(1) shrinks_fields(4,10)[OF assms(2)] i unfolding settled_def
    by (metis filter.simps(1) less_le_trans not_less order.strict_trans2)
qed

lemma level0_loop_settled: "k < n \<Longrightarrow> settled (level0_loop g n) k"
proof (induction n arbitrary: g)
  case 0 then show ?case by simp
next
  case (Suc n)
  let ?g1 = "if \<not> mark g n \<and> grad g n > 0 then del_inp g n else g"
  show ?case
  proof (cases "k = n")
    case True
    have "settled ?g1 n" by (auto simp: settled_def inp_arcs_del_inp)
    then have "settled (level0_loop ?g1 n) n" using shrinks_level0_loop by (rule settled_shrinks)
    with True show ?thesis by simp
  next
    case False
    with Suc.prems have "k < n" by simp
    from Suc.IH[OF this, of ?g1] show ?thesis by simp
  qed
qed

lemma level0_loop_id: "\<forall>k<n. settled g k \<Longrightarrow> level0_loop g n = g"
proof (induction n)
  case 0 show ?case by simp
next
  case (Suc n)
  then have "settled g n" by simp
  then have a: "(if \<not> mark g n \<and> grad g n > 0 then del_inp g n else g) = g"
    by (auto simp: settled_def del_inp_id)
  have b: "level0_loop g n = g" using Suc by simp
  show ?case by (simp only: level0_loop.simps a b)
qed

lemma edge_pair: "{e - e mod 2, e - e mod 2 + 1} = {e, flipedge e}"
proof (cases "e mod 2 = 1")
  case True
  then have "e - e mod 2 = e - 1" "e - 1 + 1 = e" by presburger+
  with True show ?thesis by (auto simp: flipedge_def)
next
  case False
  then have "e mod 2 = 0" by presburger
  then show ?thesis by (auto simp: flipedge_def)
qed

lemma edge_del_keeps:
  assumes "twin_ok g" "closed_marks D g" "e \<in> set (alive g)" "\<not> D (head g e)" "D v"
  shows "out_arcs (graph_edge_del g e) v = out_arcs g v"
proof -
  have "\<And>a. a \<in> set (alive g) \<Longrightarrow> tail g a = v \<Longrightarrow> a \<noteq> e \<and> a \<noteq> flipedge e"
    using assms unfolding twin_ok_def closed_marks_def by metis
  then have "\<And>a. a \<in> set (alive g) \<Longrightarrow> tail g a = v \<Longrightarrow> a \<notin> {e - e mod 2, e - e mod 2 + 1}"
    unfolding edge_pair by blast
  then have "\<And>a. a \<in> set (alive g) \<Longrightarrow>
      (tail g a = v \<and> a \<noteq> e - e mod 2 \<and> a \<noteq> e - e mod 2 + 1) = (tail g a = v)"
    by blast
  then show ?thesis
    unfolding out_arcs_def graph_edge_del_def Let_def
    by (simp add: conj_commute cong: filter_cong)
qed

lemma twin_ok_shrinks: "twin_ok g \<Longrightarrow> shrinks g g' \<Longrightarrow> twin_ok g'"
  unfolding twin_ok_def using shrinks_fields(5,6,9) by (metis subsetD)

lemma closed_marks_shrinks: "closed_marks D g \<Longrightarrow> shrinks g g' \<Longrightarrow> closed_marks D g'"
  unfolding closed_marks_def using shrinks_fields(5,6,9) by (metis subsetD)

lemma del_inp_keeps:
  "twin_ok g \<Longrightarrow> closed_marks D g \<Longrightarrow> \<not> D k \<Longrightarrow> D v \<Longrightarrow> out_arcs (del_inp g k) v = out_arcs g v"
proof (induction g k rule: del_inp.induct)
  case (1 g k)
  show ?case
  proof (cases "inp_arcs g k")
    case Nil then show ?thesis by (simp add: del_inp_id)
  next
    case (Cons e es)
    then have "e \<in> set (inp_arcs g k)" by simp
    then have e: "e \<in> set (alive g)" "head g e = k" by (auto simp: inp_arcs_def)
    have k: "out_arcs (graph_edge_del g e) v = out_arcs g v"
      using edge_del_keeps[OF "1.prems"(1,2) e(1) _ "1.prems"(4)] e(2) "1.prems"(3) by simp
    have "out_arcs (del_inp (graph_edge_del g e) k) v = out_arcs (graph_edge_del g e) v"
      using "1.IH"[OF Cons] twin_ok_shrinks[OF "1.prems"(1) shrinks_edge_del]
        closed_marks_shrinks[OF "1.prems"(2) shrinks_edge_del] "1.prems"(3,4) by blast
    with k Cons show ?thesis by (simp add: del_inp.simps[of g k])
  qed
qed

lemma level0_loop_keeps:
  "twin_ok g \<Longrightarrow> closed_marks (mark g) g \<Longrightarrow> mark g v \<Longrightarrow> out_arcs (level0_loop g n) v = out_arcs g v"
proof (induction n arbitrary: g)
  case 0 show ?case by simp
next
  case (Suc n)
  let ?g1 = "if \<not> mark g n \<and> grad g n > 0 then del_inp g n else g"
  have s: "shrinks g ?g1" by (simp add: shrinks_refl shrinks_del_inp)
  have m: "mark ?g1 = mark g" using shrinks_fields(4)[OF s] .
  have o: "out_arcs ?g1 v = out_arcs g v"
    using del_inp_keeps[OF Suc.prems(1,2) _ Suc.prems(3)] by simp
  have "out_arcs (level0_loop ?g1 n) v = out_arcs ?g1 v"
    using Suc.IH[of ?g1] twin_ok_shrinks[OF Suc.prems(1) s] closed_marks_shrinks[OF Suc.prems(2) s]
      Suc.prems(3) unfolding m by blast
  with o show ?case by simp
qed

lemma level0_level0:
  assumes wf: "graph_wf g"
  shows "level0 (level0 g) = level0 g"
proof -
  define m0 where "m0 = (\<lambda>k. if k < knots g then False else mark g k)"
  define g1 where "g1 = g\<lparr>mark := m0\<rparr>"
  define D where "D = dfs_loop g1 (\<lambda>_ _. False) (m0(source g := True)) [source g]"
  define g2 where "g2 = g1\<lparr>mark := D\<rparr>"
  define g3 where "g3 = level0_loop g2 (knots g)"
  have l0: "level0 g = g3"
    unfolding level0_def Let_def graph_trail_arr_def g3_def g2_def D_def g1_def m0_def by simp
  have s: "shrinks g2 g3" unfolding g3_def by (rule shrinks_level0_loop)
  note f = shrinks_fields[OF s]
  have tw: "twin_ok g2" using wf unfolding twin_ok_def graph_wf_def g2_def g1_def by simp
  have inv0: "dfs_inv g1 (m0(source g := True)) [source g]"
    unfolding dfs_inv_def
  proof (intro allI impI)
    fix v assume "(m0(source g := True)) v"
    then have "v = source g \<or> \<not> v < knots g" by (auto simp: m0_def split: if_splits)
    moreover have "\<not> v < knots g \<Longrightarrow> out_arcs g1 v = []"
      using wf unfolding graph_wf_def out_arcs_def g1_def by (auto simp: filter_empty_conv)
    ultimately show "v \<in> set [source g] \<or> (\<forall>a\<in>set (out_arcs g1 v). (m0(source g := True)) (head g1 a))"
      by auto
  qed
  have "dfs_inv g1 D []" unfolding D_def using dfs_loop_closed[OF inv0] .
  then have cl: "closed_marks (mark g2) g2"
    unfolding dfs_inv_def closed_marks_def g2_def out_arcs_def by (auto simp: g1_def)
  have keep: "\<And>v. D v \<Longrightarrow> out_arcs g3 v = out_arcs g1 v"
  proof -
    fix v assume "D v"
    then have "mark g2 v" by (simp add: g2_def)
    from level0_loop_keeps[OF tw cl this, of "knots g"]
    show "out_arcs g3 v = out_arcs g1 v" unfolding g3_def by (simp add: out_arcs_def g2_def)
  qed
  have Dm0: "(\<lambda>k. if k < knots g then False else D k) = m0"
  proof
    fix k
    show "(if k < knots g then False else D k) = m0 k"
    proof (cases "k < knots g")
      case True then show ?thesis by (simp add: m0_def)
    next
      case False
      have "D k \<Longrightarrow> m0 k"
      proof -
        assume "D k"
        then have "(m0(source g := True)) k \<or> k \<in> head g1 ` set (alive g1)"
          unfolding D_def by (rule dfs_loop_marks_in)
        then show "m0 k" using wf False unfolding graph_wf_def g1_def by (auto split: if_splits)
      qed
      moreover have "m0 k \<Longrightarrow> D k"
        unfolding D_def using False wf by (intro dfs_loop_mono) (auto simp: graph_wf_def)
      ultimately show ?thesis using False by auto
    qed
  qed
  define g3c where "g3c = g3\<lparr>mark := m0\<rparr>"
  have hd: "head g3c = head g1" using f(5) by (simp add: g3c_def g2_def)
  have oc: "\<And>v. out_arcs g3c v = out_arcs g3 v" by (simp add: g3c_def out_arcs_def)
  have D2: "dfs_loop g3c (\<lambda>_ _. False) (m0(source g := True)) [source g] = D"
    unfolding D_def
    by (rule dfs_loop_cong[OF hd]) (use keep oc in \<open>auto simp: D_def\<close>)
  have mk: "mark g3 = D" using f(4) by (simp add: g2_def)
  have kn: "knots g3 = knots g" "source g3 = source g" using f(1,3) by (simp_all add: g2_def g1_def)
  have "level0 g3 = level0_loop (g3c\<lparr>mark := D\<rparr>) (knots g)"
    unfolding level0_def Let_def graph_trail_arr_def kn mk Dm0 using D2 by (simp add: g3c_def kn)
  also have "g3c\<lparr>mark := D\<rparr> = g3" unfolding g3c_def using mk by simp
  also have "level0_loop g3 (knots g) = g3"
    by (rule level0_loop_id) (use level0_loop_settled in \<open>auto simp: g3_def\<close>)
  finally show ?thesis unfolding l0 .
qed

subsection \<open>Results and the dispatcher\<close>

lemma call_simps [simp]:
  "call (Inl e) f = Some (Inl e)" "call (Inr x) f = f x"
  "callE (Inl e) h = Inl e" "callE (Inr x) h = h x"
  "bnd None f = None" "bnd (Some r) f = call r f"
  by (simp_all add: call_def callE_def bnd_def)

lemma level0_shrinks: "shrinks (g\<lparr>mark := mark (level0 g)\<rparr>) (level0 g)"
proof -
  have "shrinks (graph_trail_arr (g\<lparr>mark := (\<lambda>k. if k < knots g then False else mark g k)\<rparr>) (source g)) (level0 g)"
    unfolding level0_def Let_def by (simp add: shrinks_level0_loop)
  moreover have "mark (level0 g) = mark (graph_trail_arr (g\<lparr>mark := (\<lambda>k. if k < knots g then False else mark g k)\<rparr>) (source g))"
    using shrinks_fields(4)[OF calculation] .
  ultimately show ?thesis by (simp add: graph_trail_arr_def)
qed

lemma level0_fields:
  "knots (level0 g) = knots g" "edges (level0 g) = edges g" "stp_type (level0 g) = stp_type g"
  "terms (level0 g) = terms g" "source (level0 g) = source g"
  "length (alive (level0 g)) \<le> length (alive g)"
  using shrinks_fields[OF level0_shrinks[of g]] by simp_all

lemma reduce_nomethods:
  assumes "graph_init_history L w = Inr e1" "graph_path_init L (w\<lparr>scip := e1\<rparr>) = Inr e2"
    and "stp_type (graph w) = STP_DCSTP \<or> stp_type (graph w) = STP_RMWCSP
       \<or> stp_type (graph w) = STP_NWPTSPG \<or> stp_type (graph w) = STP_BRMWCSP"
  shows "reduce n L w level minelims userec' =
     Some (Inr (0, \<lparr>scip = graph_path_exit L \<lparr>scip = e2, graph = level0 (graph w)\<rparr>, graph = level0 (graph w)\<rparr>))"
  using assms unfolding reduce_def Let_def
  by (cases w) (auto simp: ret_def level0_fields)

lemma reduce_level0:
  assumes "graph_init_history L w = Inr e1" "graph_path_init L (w\<lparr>scip := e1\<rparr>) = Inr e2"
    and "\<not> (stp_type (graph w) = STP_DCSTP \<or> stp_type (graph w) = STP_RMWCSP
       \<or> stp_type (graph w) = STP_NWPTSPG \<or> stp_type (graph w) = STP_BRMWCSP)"
  shows "reduce n L w 0 minelims userec' =
     Some (Inr (0, \<lparr>scip = graph_path_exit L \<lparr>scip = e2, graph = level0 (level0 (graph w))\<rparr>, graph = level0 (level0 (graph w))\<rparr>))"
  using assms unfolding reduce_def Let_def
  by (cases w) (auto simp: ret_def level0_fields)

lemma lib_idle_init [simp]:
  "graph_init_history lib_idle w = Inr (scip w)" "graph_path_init lib_idle w = Inr (scip w)"
  "graph_path_exit lib_idle w = scip w"
  by (simp_all add: lib_idle_def)

lemma ex1: "alive (level0 graph_two_comp) = [1, 0]" by code_simp
lemma ex2: "alive (level0 graph_par2) = [3, 2, 1, 0]" by code_simp
lemma ex3: "graph_wf graph_two_comp" by code_simp
lemma ex4: "graph_wf graph_par2" by code_simp
lemma ex5b: "(case level0RpcRmwInfeas (lib_idle :: unit lib) graph_rpc_a 0 of
    Inr (g', offset, infeas) \<Rightarrow> infeas \<and> offset = 0 \<and> alive g' = [3, 2, 1, 0] | Inl e \<Rightarrow> False)" by code_simp


subsection \<open>Removal of parallel edges\<close>









subsection \<open>Infeasibility of rooted problems\<close>




subsection \<open>Rules for the assertions\<close>

lemma postE_Inr: "Q x \<Longrightarrow> postE (Inr x) Q" by (simp add: postE_def)

lemma postE_callE: "postE r I \<Longrightarrow> (\<And>x. I x \<Longrightarrow> postE (f x) Q) \<Longrightarrow> postE (callE r f) Q"
  by (cases r) (auto simp: postE_def)

lemma postE_any: "(\<And>x. postE (f x) Q) \<Longrightarrow> postE (callE r f) Q"
  by (cases r) (auto simp: postE_def)

lemma postE_if: "(c \<Longrightarrow> postE a Q) \<Longrightarrow> (\<not> c \<Longrightarrow> postE b Q) \<Longrightarrow> postE (if c then a else b) Q"
  by simp

lemma postE_prod: "(\<And>a b. postE (f a b) Q) \<Longrightarrow> postE (case_prod f p) Q"
  by (cases p) simp

lemma post_ret: "Q x \<Longrightarrow> post (ret x) Q" by (simp add: post_def ret_def)

lemma post_call: "postE r I \<Longrightarrow> (\<And>x. I x \<Longrightarrow> post (f x) Q) \<Longrightarrow> post (call r f) Q"
  by (cases r) (auto simp: postE_def post_def)

lemma post_call_any: "(\<And>x. post (f x) Q) \<Longrightarrow> post (call r f) Q"
  by (cases r) (auto simp: post_def)

lemma post_bnd: "post m I \<Longrightarrow> (\<And>x. I x \<Longrightarrow> post (f x) Q) \<Longrightarrow> post (bnd m f) Q"
  by (cases m) (auto simp: post_def call_def split: sum.splits)

lemma post_if: "(c \<Longrightarrow> post a Q) \<Longrightarrow> (\<not> c \<Longrightarrow> post b Q) \<Longrightarrow> post (if c then a else b) Q"
  by simp

lemma post_prod: "(\<And>a b. post (f a b) Q) \<Longrightarrow> post (case_prod f p) Q"
  by (cases p) simp


lemma post_call_rel:
  "transp R \<Longrightarrow> postE r (R s) \<Longrightarrow>
   (\<And>x. post (f x) (\<lambda>(brk, s'). R x s')) \<Longrightarrow> post (call r f) (\<lambda>(brk, s'). R s s')"
  by (cases r) (auto simp: postE_def post_def dest: transpD)

lemma post_bnd_rel:
  "transp R \<Longrightarrow> post m (R s) \<Longrightarrow>
   (\<And>x. post (f x) (\<lambda>(brk, s'). R x s')) \<Longrightarrow> post (bnd m f) (\<lambda>(brk, s'). R s s')"
  by (cases m) (auto simp: postE_def post_def call_def split: sum.splits, blast dest: transpD)

lemma postE_callE_rel:
  "transp R \<Longrightarrow> postE r (R s) \<Longrightarrow>
   (\<And>x. postE (f x) (\<lambda>(brk, s'). R x s')) \<Longrightarrow> postE (callE r f) (\<lambda>(brk, s'). R s s')"
  by (cases r) (auto simp: postE_def dest: transpD)






subsection \<open>The reduction loops\<close>

lemma stp_frame_trans: "transp stp_frame"
  by (rule transpI) (simp add: stp_frame_def)

lemma redLoopStp_tests_frame:
  "post (redLoopStp_tests m L tlim nr rb ur s) (\<lambda>(brk, s'). stp_frame s s')"
  unfolding redLoopStp_tests_def Let_def
  apply (intro post_if post_ret post_call_rel[where R = stp_frame, OF stp_frame_trans]
      post_bnd_rel[where R = stp_frame, OF stp_frame_trans]
      post_call_any post_prod)
  apply (auto simp: stp_frame_def postE_def post_def callE_def bnd_def call_def ret_def Let_def
      split: sum.splits prod.splits if_splits option.splits)
  done

lemma pc_frame_trans: "transp pc_frame"
  by (rule transpI) (simp add: pc_frame_def)

lemma redLoopPc_tests_frame:
  "post (redLoopPc_tests m L tlim ps dualascent ur nr rb s) (\<lambda>(brk, s'). pc_frame s s')"
  unfolding redLoopPc_tests_def Let_def
  apply (intro post_if post_ret post_call_rel[where R = pc_frame, OF pc_frame_trans]
      post_bnd_rel[where R = pc_frame, OF pc_frame_trans]
      post_call_any post_prod)
  apply (auto simp: pc_frame_def postE_def post_def callE_def execPc_SD_def execPc_SDSP_def
      execPc_BDk_def execPc_NVSL_def execPc_BND_def bnd_def call_def ret_def Let_def
      split: sum.splits prod.splits if_splits option.splits)
  done

lemma mw_frame_trans: "transp mw_frame"
  by (rule transpI) (simp add: mw_frame_def)

lemma redLoopMw_tests_frame:
  "postE (redLoopMw_tests L tlim ps rb r s) (\<lambda>(brk, s'). mw_frame s s')"
  unfolding redLoopMw_tests_def Let_def
  apply (intro postE_if postE_Inr postE_callE_rel[where R = mw_frame, OF mw_frame_trans]
      postE_any postE_prod)
  apply (auto simp: mw_frame_def postE_def callE_def Let_def
      split: sum.splits prod.splits if_splits)
  done











lemma redLoopStp_inner_done:
  "\<not> rerun s \<Longrightarrow> redLoopStp_inner n m L tlim nr rb ur fr s = ret s"
  by (cases n) simp_all

subsection \<open>Runs of the loops on the examples\<close>



lemma graph_path3_simps [simp]: "terms graph_path3 = 3" "stp_type graph_path3 = STP_PCSPG"
  by (simp_all add: graph_path3_def)

lemma lib_root_simps [simp]:
  "SCIPisStopped lib_root = (\<lambda>_. False)"
  "SCIPgetTotalTime lib_root = (\<lambda>_. 0)"
  "graph_pc_2org lib_root = (\<lambda>g. g)"
  "graph_pc_2trans lib_root = (\<lambda>g. g)"
  "graph_pc_pcmw2rooted lib_root = (\<lambda>prizesum w. Inr (w\<lparr>graph := (graph w)\<lparr>stp_type := STP_RPCSPG\<rparr>\<rparr>))"
  "reduce_simple_pc lib_root = (\<lambda>fixed countall w.
        Inr (0, (case countall of None \<Rightarrow> 0 | Some c \<Rightarrow> c), fixed, w))"
  "reduce_nvAdv lib_root = (\<lambda>fixed w. Inr (0, fixed, w))"
  "reduce_sl lib_root = (\<lambda>fixed w. Inr (0, fixed, w))"
  "reduce_sdPc lib_root = (\<lambda>w. Inr (0, w))"
  "reduce_sdsp lib_root = (\<lambda>limit w. Inr (0, w))"
  "reduce_sdStar lib_root = (\<lambda>limit w. Inr (0, w))"
  "reduce_sdWalk_csr lib_root = (\<lambda>limit w. Inr (0, w))"
  "reduce_sdWalkExt lib_root = (\<lambda>limit w. Inr (0, w))"
  "reduce_bd34 lib_root = (\<lambda>limit offset w. Inr (0, offset, w))"
  "reduce_bound lib_root = (\<lambda>b offset ub w. Inr (0, offset, ub, w))"
  "reduce_da lib_root = (\<lambda>ub offset prevrounds b1 b2 b3 w. Inr (0, ub, offset, w))"
  "reduce_daPcMw lib_root = (\<lambda>b1 b2 b3 b4 b5 prizesum b6 w. Inr (0, w))"
  by (simp_all add: lib_root_def lib_idle_def)



lemma stp_tests0:
  "\<exists>s'. redLoopStp_tests 1 lib_idle 3600 True 1 False stp_state0 = Some (Inr (False, s'))"
  by (simp add: redLoopStp_tests_def stp_state0_def lib_idle_def Let_def STP_RED_EXTENSIVE_def
      nvreduce_sl_def ret_def)

lemma pc_tests0:
  "\<exists>s'. redLoopPc_tests 1 lib_root 3600 0 True False True 1 (pc_state0\<lparr>pc_state.sd := False\<rparr>)
     = Some (Inr (False, s'))"
  by (simp add: redLoopPc_tests_def pc_state0_def Let_def STP_RED_EXTENSIVE_def
      execPc_SD_def execPc_SDSP_def execPc_BDk_def execPc_NVSL_def execPc_BND_def nvreduce_sl_def ret_def)

lemma mw_tests0:
  "\<exists>s'. redLoopMw_tests lib_idle 3600 0 1 0 mw_state0 = Inr (False, s')"
  by (simp add: redLoopMw_tests_def mw_state0_def lib_idle_def Let_def STP_RED_EXTENSIVE_def)

lemma lib_sd3_simps [simp]:
  "SCIPisStopped lib_sd3 = (\<lambda>_. False)"
  "SCIPgetTotalTime lib_sd3 = (\<lambda>_. 0)"
  "reduce_simple lib_sd3 = (\<lambda>fixed count w. Inr (count, fixed, w))"
  "reduce_simple_pc lib_sd3 = (\<lambda>fixed countall w.
        Inr (0, (case countall of None \<Rightarrow> 0 | Some c \<Rightarrow> c), fixed, w))"
  "reduce_nvAdv lib_sd3 = (\<lambda>fixed w. Inr (0, fixed, w))"
  "reduce_sl lib_sd3 = (\<lambda>fixed w. Inr (0, fixed, w))"
  "reduce_ledge lib_sd3 = (\<lambda>w. Inr (0, w))"
  "reduce_sd lib_sd3 = (\<lambda>b w. if 3 \<le> scip w then Inr (3, w\<lparr>scip := scip w - 3\<rparr>) else Inr (0, w))"
  "reduce_sdsp lib_sd3 = (\<lambda>limit w. Inr (0, w))"
  "reduce_bd34 lib_sd3 = (\<lambda>limit offset w. Inr (0, offset, w))"
  "reduce_bound lib_sd3 = (\<lambda>b offset ub w. Inr (0, offset, ub, w))"
  "reduce_da lib_sd3 = (\<lambda>ub offset prevrounds b1 b2 b3 w. Inr (0, ub, offset, w))"
  by (simp_all add: lib_sd3_def lib_idle_def)





section \<open>The claims\<close>

text \<open>
  C2, as amended. With \<open>level = 0\<close> the dispatcher runs no reduction test and returns
  the offset 0, but it is not a no-op: it runs the connectivity cleanup. When the two
  initialisations succeed on a well-formed graph, the graph that it hands back is
  \<open>level0\<close> of the graph that it was given, whatever the tests of the library are.
\<close>

theorem reduce_level0_is_cleanup:
  assumes "graph_init_history L w = Inr e1" and "graph_path_init L (w\<lparr>scip := e1\<rparr>) = Inr e2"
    and "graph_wf (graph w)"
  shows "reduce n L w 0 minelims userec' =
     Some (Inr (0, \<lparr>scip = graph_path_exit L \<lparr>scip = e2, graph = level0 (graph w)\<rparr>,
                    graph = level0 (graph w)\<rparr>))"
proof (cases "stp_type (graph w) = STP_DCSTP \<or> stp_type (graph w) = STP_RMWCSP
       \<or> stp_type (graph w) = STP_NWPTSPG \<or> stp_type (graph w) = STP_BRMWCSP")
  case True
  from reduce_nomethods[OF assms(1,2) True] show ?thesis .
next
  case False
  from reduce_level0[OF assms(1,2) False] level0_level0[OF assms(3)] show ?thesis by simp
qed

theorem reduce_level0_is_cleanup_witness:
  "graph_init_history lib_idle \<lparr>scip = (), graph = graph_two_comp\<rparr> = Inr () \<and>
   graph_path_init lib_idle (\<lparr>scip = (), graph = graph_two_comp\<rparr>\<lparr>scip := ()\<rparr>) = Inr () \<and>
   graph_wf graph_two_comp \<and>
   reduce 0 lib_idle \<lparr>scip = (), graph = graph_two_comp\<rparr> 0 0 False =
     Some (Inr (0, \<lparr>scip = (), graph = level0 graph_two_comp\<rparr>))"
  using reduce_level0_is_cleanup[of lib_idle "\<lparr>scip = (), graph = graph_two_comp\<rparr>" "()" "()" 0 0 False]
    ex3
  by simp

text \<open>
  C2 as stated fails: at level 0 the edge between the nodes 2 and 3 of
  \<open>graph_two_comp\<close>, out of reach of the source, is deleted.
\<close>

theorem reduce_level0_changes_graph:
  "(case reduce 0 lib_idle \<lparr>scip = (), graph = graph_two_comp\<rparr> 0 0 False of
      Some (Inr (offset, w)) \<Rightarrow> alive (graph w) = [1, 0] \<and> alive graph_two_comp = [3, 2, 1, 0]
    | _ \<Rightarrow> False)"
proof -
  have "reduce 0 lib_idle \<lparr>scip = (), graph = graph_two_comp\<rparr> 0 0 False =
     Some (Inr (0, \<lparr>scip = (), graph = level0 (level0 graph_two_comp)\<rparr>))"
    by (subst reduce_level0[of _ _ "()" "()"]) (simp_all add: graph_two_comp_def)
  then show ?thesis using level0_level0[OF ex3] ex1 by (simp add: graph_two_comp_def)
qed




text \<open>
  C6. On a well-formed graph, a second run of \<open>level0\<close> right after the first deletes
  no edge and leaves the graph as the first run left it.
\<close>

theorem level0_idempotent:
  assumes "graph_wf g"
  shows "level0 (level0 g) = level0 g"
  using assms by (rule level0_level0)

theorem level0_idempotent_witness:
  "graph_wf graph_two_comp \<and> level0 (level0 graph_two_comp) = level0 graph_two_comp"
  using level0_idempotent[of graph_two_comp] ex3 by simp

text \<open>
  C7, as amended. The work limit of \<open>getWorkLimits_pc\<close> is non-decreasing in the number
  of edges as long as both graphs are on the same side of \<open>STP_RED_EDGELIMIT\<close>, and for
  all numbers of edges in every round but the first.
\<close>

theorem getWorkLimits_pc_mono_regime:
  assumes "edges g1 \<le> edges g2"
    and "r \<noteq> 0 \<or> (int (edges g1) < STP_RED_EDGELIMIT \<longleftrightarrow> int (edges g2) < STP_RED_EDGELIMIT)"
  shows "getWorkLimits_pc g1 r t \<le> getWorkLimits_pc g2 r t"
  using assms unfolding getWorkLimits_pc_def Let_def
  by (cases t)
     (auto simp: STP_RED_SDSPBOUND_def STP_RED_SDSPBOUND2_def STP_RED_EDGELIMIT_def
           intro!: floor_mono max.mono divide_right_mono mult_left_mono)

theorem getWorkLimits_pc_mono_regime_witness:
  "edges (graph_par2\<lparr>edges := 22500\<rparr>) \<le> edges (graph_par2\<lparr>edges := 90000\<rparr>) \<and>
   (int (edges (graph_par2\<lparr>edges := 22500\<rparr>)) < STP_RED_EDGELIMIT
      \<longleftrightarrow> int (edges (graph_par2\<lparr>edges := 90000\<rparr>)) < STP_RED_EDGELIMIT) \<and>
   getWorkLimits_pc (graph_par2\<lparr>edges := 22500\<rparr>) 0 pc_bd3
     \<le> getWorkLimits_pc (graph_par2\<lparr>edges := 90000\<rparr>) 0 pc_bd3"
  using getWorkLimits_pc_mono_regime[of "graph_par2\<lparr>edges := 22500\<rparr>" "graph_par2\<lparr>edges := 90000\<rparr>" 0 pc_bd3]
  by (simp add: STP_RED_EDGELIMIT_def)

text \<open>
  C7 as stated fails across the boundary in the first round: with 199998 arcs the limit
  of the SDSP test is 596, with 200000 arcs it is 200.
\<close>

theorem getWorkLimits_pc_drops_at_edgelimit:
  "getWorkLimits_pc (graph_par2\<lparr>edges := 199998\<rparr>) 0 pc_sdc = 596 \<and>
   getWorkLimits_pc (graph_par2\<lparr>edges := 200000\<rparr>) 0 pc_sdc = 200"
proof -
  have s1: "447 \<le> sqrt 199998" by (rule real_le_rsqrt) simp
  have s2: "sqrt 199998 < 447.75" by (rule real_less_lsqrt) (simp_all add: power2_eq_square)
  have s3: "sqrt 200000 < 448" by (rule real_less_lsqrt) simp_all
  have "getWorkLimits_pc (graph_par2\<lparr>edges := 199998\<rparr>) 0 pc_sdc = 596"
    using s1 s2 unfolding getWorkLimits_pc_def
    by (simp add: STP_RED_SDSPBOUND_def STP_RED_SDSPBOUND2_def STP_RED_EDGELIMIT_def Let_def
        floor_eq_iff)
  moreover have "getWorkLimits_pc (graph_par2\<lparr>edges := 200000\<rparr>) 0 pc_sdc = 200"
    using s3 unfolding getWorkLimits_pc_def
    by (simp add: STP_RED_SDSPBOUND_def STP_RED_SDSPBOUND2_def STP_RED_EDGELIMIT_def Let_def)
  ultimately show ?thesis by simp
qed




text \<open>
  C10. For the variants without reduction methods (degree-constrained STP, rooted MWCS,
  node-weighted with fixed terminals, budgeted rooted MWCS) the dispatcher, at every
  level, returns the offset 0 and the graph after one run of \<open>level0\<close>, when the two
  initialisations succeed: the result does not depend on any test of the library.
\<close>

theorem reduce_variants_without_methods:
  assumes "graph_init_history L w = Inr e1" and "graph_path_init L (w\<lparr>scip := e1\<rparr>) = Inr e2"
    and "stp_type (graph w) = STP_DCSTP \<or> stp_type (graph w) = STP_RMWCSP
       \<or> stp_type (graph w) = STP_NWPTSPG \<or> stp_type (graph w) = STP_BRMWCSP"
  shows "reduce n L w level minelims userec' =
     Some (Inr (0, \<lparr>scip = graph_path_exit L \<lparr>scip = e2, graph = level0 (graph w)\<rparr>,
                    graph = level0 (graph w)\<rparr>))"
  using assms by (rule reduce_nomethods)

theorem reduce_variants_without_methods_witness:
  "graph_init_history lib_idle \<lparr>scip = (), graph = graph_par2\<lparr>stp_type := STP_RMWCSP\<rparr>\<rparr> = Inr () \<and>
   graph_path_init lib_idle (\<lparr>scip = (), graph = graph_par2\<lparr>stp_type := STP_RMWCSP\<rparr>\<rparr>\<lparr>scip := ()\<rparr>)
     = Inr () \<and>
   stp_type (graph \<lparr>scip = (), graph = graph_par2\<lparr>stp_type := STP_RMWCSP\<rparr>\<rparr>) = STP_RMWCSP \<and>
   reduce 0 lib_idle \<lparr>scip = (), graph = graph_par2\<lparr>stp_type := STP_RMWCSP\<rparr>\<rparr> 2 0 True =
     Some (Inr (0, \<lparr>scip = (), graph = level0 (graph_par2\<lparr>stp_type := STP_RMWCSP\<rparr>)\<rparr>))"
  using reduce_variants_without_methods[of lib_idle
      "\<lparr>scip = (), graph = graph_par2\<lparr>stp_type := STP_RMWCSP\<rparr>\<rparr>" "()" "()" 0 2 0 True]
  by simp




text \<open>
  C5, as amended. \<open>reduceStp\<close> runs its loop with the reduction bound
  \<open>max (nedges div 1000) minelims\<close> of the number of edges, \<open>reducePc\<close> and \<open>reduceMw\<close>
  with \<open>max (nnodes div 1000) minelims\<close> of the number of nodes. In all three loops the
  tests of a round only clear flags of tests: a test that is not active at the start of
  the tests of a round is not active at their end.
\<close>

theorem reduction_bounds_and_deactivation:
  "reduceStp n L w f me dualascent nr ur =
     redLoopStp n L w f (-1) dualascent (terms_ratio_le L (graph w) 0.03) nr
       (max (int (edges (graph w)) div 1000) me) ur (dualascent \<and> ur) \<and>
   reducePc n L w f me adv ur nr =
     redLoopPc n L w f adv (terms_ratio_le L (graph w) 0.03) (ur \<and> adv)
       (max (int (knots (graph w)) div 1000) me) ur nr \<and>
   reduceMw n L w f me adv ur =
     redLoopMw n L w f adv (terms_ratio_le L (graph w) 0.1) adv
       (max (int (knots (graph w)) div 1000) me) ur \<and>
   (redLoopStp_tests m L tlim nr rb ur s = Some (Inr (brk, s')) \<longrightarrow> stp_frame s s') \<and>
   (redLoopPc_tests m L tlim ps dualascent ur nr rb p = Some (Inr (brk', p')) \<longrightarrow> pc_frame p p') \<and>
   (redLoopMw_tests L tlim ps rb r q = Inr (brk'', q') \<longrightarrow> mw_frame q q')"
  using redLoopStp_tests_frame[of m L tlim nr rb ur s]
    redLoopPc_tests_frame[of m L tlim ps dualascent ur nr rb p]
    redLoopMw_tests_frame[of L tlim ps rb r q]
  by (simp add: reduceStp_def reducePc_def reduceMw_def reduceStp_reductbound_def
      reducePc_reductbound_def reduceMw_redbound_def Let_def post_def postE_def)

theorem reduction_bounds_and_deactivation_witness:
  "(\<exists>s'. redLoopStp_tests 1 lib_idle 3600 True 1 False stp_state0 = Some (Inr (False, s')) \<and> \<not> le s') \<and>
   (\<exists>p'. redLoopPc_tests 1 lib_root 3600 0 True False True 1 (pc_state0\<lparr>pc_state.sd := False\<rparr>)
            = Some (Inr (False, p')) \<and> \<not> pc_state.sd p') \<and>
   (\<exists>q'. redLoopMw_tests lib_idle 3600 0 1 0 mw_state0 = Inr (False, q') \<and> \<not> ans q')"
proof -
  from stp_tests0 obtain s' where
    s: "redLoopStp_tests 1 lib_idle 3600 True 1 False stp_state0 = Some (Inr (False, s'))" by blast
  from pc_tests0 obtain p' where
    p: "redLoopPc_tests 1 lib_root 3600 0 True False True 1 (pc_state0\<lparr>pc_state.sd := False\<rparr>)
         = Some (Inr (False, p'))" by blast
  from mw_tests0 obtain q' where
    q: "redLoopMw_tests lib_idle 3600 0 1 0 mw_state0 = Inr (False, q')" by blast
  from reduction_bounds_and_deactivation[where m = 1 and L = "lib_idle :: unit lib" and tlim = 3600
      and nr = True and rb = 1 and ur = False and s = stp_state0 and s' = s' and brk = False] s
  have "stp_frame stp_state0 s'" by blast
  hence 1: "\<not> le s'" by (simp add: stp_frame_def stp_state0_def)
  from reduction_bounds_and_deactivation[where m = 1 and L = "lib_root :: unit lib" and tlim = 3600
      and ps = 0 and dualascent = True and ur = False and nr = True and rb = 1
      and p = "pc_state0\<lparr>pc_state.sd := False\<rparr>" and p' = p' and brk' = False] p
  have "pc_frame (pc_state0\<lparr>pc_state.sd := False\<rparr>) p'" by blast
  hence 2: "\<not> pc_state.sd p'" by (simp add: pc_frame_def)
  from reduction_bounds_and_deactivation[where L = "lib_idle :: unit lib" and tlim = 3600
      and ps = 0 and rb = 1 and r = 0 and q = mw_state0 and q' = q' and brk'' = False] q
  have "mw_frame mw_state0 q'" by blast
  hence 3: "\<not> ans q'" by (simp add: mw_frame_def mw_state0_def)
  from s p q 1 2 3 show ?thesis by blast
qed

text \<open>
  C5 as stated fails for \<open>reduceStp\<close>: for a graph of 200 nodes and 3000 edges and
  \<open>minelims = 0\<close> its reduction bound is 3, and that of the claim is 0.
\<close>

theorem reduceStp_bound_uses_edges:
  "reduceStp_reductbound (graph_par2\<lparr>knots := 200, edges := 3000\<rparr>) 0 = 3 \<and>
   max (int (knots (graph_par2\<lparr>knots := 200, edges := 3000\<rparr>)) div 1000) 0 = 0"
  by (simp add: reduceStp_reductbound_def)





end
